theory Spec2Isabelle
  imports Complex_Main "HOL-Library.Sublist"
begin

section \<open>Numbers, dates and price bars\<close>

text \<open>
  The dashboard is TypeScript running in a browser. Its numbers are IEEE doubles; a finite
  one is modelled by the real number it stands for, so rounding is outside this development.
  Where the code divides, the zero divisor is written out with the value JavaScript gives
  (an infinity or NaN), since HOL's \<open>x / 0 = 0\<close> is not what the browser computes.
\<close>

datatype number = Finite real | PosInfinity | NegInfinity | NaN

text \<open>
  A \<open>Date\<close> object holds a time value: milliseconds since the epoch, or NaN (an invalid
  date). It is an \<open>int option\<close>, \<open>None\<close> for the invalid date. \<open>null\<close> in the place of
  a date is \<open>None\<close> too: every comparison the code makes treats both alike.
\<close>

type_synonym jsdate = "int option"

text \<open>\<open>interface StockData\<close>; the date is a string as fetched and a \<open>Date\<close> once the
  chart has parsed it, so the record is polymorphic in it.\<close>

record 'd StockData =
  date :: 'd
  open' :: real
  high :: real
  low :: real
  close :: real
  volume :: real


section \<open>The calendar of ECMAScript\<close>

text \<open>
  The range filter calls \<open>getDate\<close>, \<open>getMonth\<close>, \<open>getFullYear\<close>, \<open>setDate\<close>,
  \<open>setMonth\<close>, \<open>setFullYear\<close> and \<open>new Date(string)\<close>. These belong to the platform;
  they are written here after the abstract operations of ECMA-262 (Day, TimeWithinDay,
  DayFromYear, YearFromTime, MonthFromTime, DateFromTime, MakeDay, MakeDate, TimeClip,
  LocalTime, UTC), which keep the algebra of the standard visible.
\<close>

definition msPerDay :: int where
  "msPerDay = 86400000"

definition Day :: "int \<Rightarrow> int" where
  "Day t = t div msPerDay"

definition TimeWithinDay :: "int \<Rightarrow> int" where
  "TimeWithinDay t = t mod msPerDay"

definition DayFromYear :: "int \<Rightarrow> int" where
  "DayFromYear y =
     365 * (y - 1970) + (y - 1969) div 4 - (y - 1901) div 100 + (y - 1601) div 400"

definition DaysInYear :: "int \<Rightarrow> int" where
  "DaysInYear y =
     (if y mod 4 \<noteq> 0 then 365 else if y mod 100 \<noteq> 0 then 366
      else if y mod 400 \<noteq> 0 then 365 else 366)"

text \<open>\<open>YearFromTime\<close> is the largest year whose first day is not after the day of \<open>t\<close>.
  The mean year of 365.2425 days gives it up to one year, and the two comparisons settle it
  (lemma \<open>YearFromDay_bounds\<close> below).\<close>

definition YearFromDay :: "int \<Rightarrow> int" where
  "YearFromDay d =
     (let y = 1970 + (400 * d) div 146097
      in if DayFromYear (y + 1) \<le> d then y + 1
         else if DayFromYear y \<le> d then y
         else y - 1)"

definition YearFromTime :: "int \<Rightarrow> int" where
  "YearFromTime t = YearFromDay (Day t)"

definition InLeapYear :: "int \<Rightarrow> int" where
  "InLeapYear t = (if DaysInYear (YearFromTime t) = 366 then 1 else 0)"

definition DayWithinYear :: "int \<Rightarrow> int" where
  "DayWithinYear t = Day t - DayFromYear (YearFromTime t)"

text \<open>The day of the year on which month \<open>m\<close> (0 to 11) starts; month 12 closes the table.\<close>

definition monthStart :: "int \<Rightarrow> int \<Rightarrow> int" where
  "monthStart leap m =
     (if m \<le> 0 then 0 else if m = 1 then 31 else if m = 2 then 59 + leap
      else if m = 3 then 90 + leap else if m = 4 then 120 + leap
      else if m = 5 then 151 + leap else if m = 6 then 181 + leap
      else if m = 7 then 212 + leap else if m = 8 then 243 + leap
      else if m = 9 then 273 + leap else if m = 10 then 304 + leap
      else if m = 11 then 334 + leap else 365 + leap)"

definition monthOfDay :: "int \<Rightarrow> int \<Rightarrow> int" where
  "monthOfDay leap d =
     (if d < 31 then 0 else if d < 59 + leap then 1 else if d < 90 + leap then 2
      else if d < 120 + leap then 3 else if d < 151 + leap then 4
      else if d < 181 + leap then 5 else if d < 212 + leap then 6
      else if d < 243 + leap then 7 else if d < 273 + leap then 8
      else if d < 304 + leap then 9 else if d < 334 + leap then 10 else 11)"

definition MonthFromTime :: "int \<Rightarrow> int" where
  "MonthFromTime t = monthOfDay (InLeapYear t) (DayWithinYear t)"

definition DateFromTime :: "int \<Rightarrow> int" where
  "DateFromTime t = DayWithinYear t - monthStart (InLeapYear t) (MonthFromTime t) + 1"

definition MakeDay :: "int \<Rightarrow> int \<Rightarrow> int \<Rightarrow> int" where
  "MakeDay year month dt =
     (let ym = year + month div 12; mn = month mod 12
      in DayFromYear ym + monthStart (if DaysInYear ym = 366 then 1 else 0) mn + dt - 1)"

definition MakeDate :: "int \<Rightarrow> int \<Rightarrow> int" where
  "MakeDate day time = day * msPerDay + time"

definition TimeClip :: "int \<Rightarrow> jsdate" where
  "TimeClip t = (if \<bar>t\<bar> > 8640000000000000 then None else Some t)"

text \<open>
  The offset of local time is the platform's \<open>LocalTZA(t, isUTC)\<close>; it is a parameter
  \<open>tza\<close> of everything that reads local time.
\<close>

definition LocalTime :: "(int \<Rightarrow> bool \<Rightarrow> int) \<Rightarrow> int \<Rightarrow> int" where
  "LocalTime tza t = t + tza t True"

definition UTC :: "(int \<Rightarrow> bool \<Rightarrow> int) \<Rightarrow> int \<Rightarrow> int" where
  "UTC tza t = t - tza t False"

definition getDate :: "(int \<Rightarrow> bool \<Rightarrow> int) \<Rightarrow> int \<Rightarrow> int" where
  "getDate tza t = DateFromTime (LocalTime tza t)"

definition getMonth :: "(int \<Rightarrow> bool \<Rightarrow> int) \<Rightarrow> int \<Rightarrow> int" where
  "getMonth tza t = MonthFromTime (LocalTime tza t)"

definition getFullYear :: "(int \<Rightarrow> bool \<Rightarrow> int) \<Rightarrow> int \<Rightarrow> int" where
  "getFullYear tza t = YearFromTime (LocalTime tza t)"

text \<open>The setters, on a valid date \<open>t\<close> (the code calls them on \<open>new Date()\<close> only); each
  returns the new time value, which is what the \<open>Date\<close> object then holds.\<close>

definition setDate :: "(int \<Rightarrow> bool \<Rightarrow> int) \<Rightarrow> int \<Rightarrow> int \<Rightarrow> jsdate" where
  "setDate tza t dt =
     (let l = LocalTime tza t
      in TimeClip (UTC tza (MakeDate (MakeDay (YearFromTime l) (MonthFromTime l) dt)
                                     (TimeWithinDay l))))"

definition setMonth :: "(int \<Rightarrow> bool \<Rightarrow> int) \<Rightarrow> int \<Rightarrow> int \<Rightarrow> jsdate" where
  "setMonth tza t m =
     (let l = LocalTime tza t
      in TimeClip (UTC tza (MakeDate (MakeDay (YearFromTime l) m (DateFromTime l))
                                     (TimeWithinDay l))))"

definition setFullYear :: "(int \<Rightarrow> bool \<Rightarrow> int) \<Rightarrow> int \<Rightarrow> int \<Rightarrow> jsdate" where
  "setFullYear tza t y =
     (let l = LocalTime tza t
      in TimeClip (UTC tza (MakeDate (MakeDay y (MonthFromTime l) (DateFromTime l))
                                     (TimeWithinDay l))))"

text \<open>
  \<open>new Date(s)\<close> on a string. The date-only form \<open>YYYY-MM-DD\<close> of the standard's date-time
  format, with a month from 01 to 12 and a day that the month has, is midnight UTC of that
  day. For every other string the standard leaves the result to the engine: that part is
  the parameter \<open>fallback\<close>.
\<close>

definition is_digit :: "char \<Rightarrow> bool" where
  "is_digit c = (48 \<le> (of_char c :: nat) \<and> (of_char c :: nat) \<le> 57)"

definition decimal_value :: "string \<Rightarrow> int" where
  "decimal_value s = foldl (\<lambda>n c. 10 * n + (int (of_char c) - 48)) 0 s"

definition daysInMonth :: "int \<Rightarrow> int \<Rightarrow> int" where
  "daysInMonth y m =
     (let leap = (if DaysInYear y = 366 then 1 else 0)
      in monthStart leap m - monthStart leap (m - 1))"

definition isoDateOnly :: "string \<Rightarrow> (int \<times> int \<times> int) option" where
  "isoDateOnly s =
     (if length s = 10 \<and> s ! 4 = CHR ''-'' \<and> s ! 7 = CHR ''-''
         \<and> list_all is_digit (take 4 s) \<and> list_all is_digit (take 2 (drop 5 s))
         \<and> list_all is_digit (drop 8 s)
      then (let y = decimal_value (take 4 s); m = decimal_value (take 2 (drop 5 s));
                d = decimal_value (drop 8 s)
            in if 1 \<le> m \<and> m \<le> 12 \<and> 1 \<le> d \<and> d \<le> daysInMonth y m
               then Some (y, m, d) else None)
      else None)"

definition Date_parse :: "(string \<Rightarrow> jsdate) \<Rightarrow> string \<Rightarrow> jsdate" where
  "Date_parse fallback s =
     (case isoDateOnly s of
        Some (y, m, d) \<Rightarrow> TimeClip (MakeDate (MakeDay y (m - 1) d) 0)
      | None \<Rightarrow> fallback s)"

text \<open>\<open>a >= b\<close> on two dates compares their time values; with NaN on a side it is false.\<close>

definition date_ge :: "jsdate \<Rightarrow> jsdate \<Rightarrow> bool" where
  "date_ge a b = (case (a, b) of (Some p, Some q) \<Rightarrow> p \<ge> q | _ \<Rightarrow> False)"


section \<open>The dashboard controller (\<open>Home\<close>)\<close>

text \<open>
  \<open>filterDataByTimeRange\<close> closes over the state \<open>timeRange\<close> and reads the clock twice
  (\<open>now\<close> and the initial \<open>cutoffDate\<close>); the time range is the string the switch compares,
  the two clock readings are \<open>now\<close> and \<open>created\<close>. \<open>data\<close> is \<open>None\<close> while the fetch has no
  result (\<open>undefined\<close>).
\<close>

definition cutoffDate :: "(int \<Rightarrow> bool \<Rightarrow> int) \<Rightarrow> int \<Rightarrow> int \<Rightarrow> string \<Rightarrow> jsdate option" where
  "cutoffDate tza now created timeRange =
     (if timeRange = ''1D'' then Some (setDate tza created (getDate tza now - 1))
      else if timeRange = ''1M'' then Some (setMonth tza created (getMonth tza now - 1))
      else if timeRange = ''6M'' then Some (setMonth tza created (getMonth tza now - 6))
      else if timeRange = ''1Y'' then Some (setFullYear tza created (getFullYear tza now - 1))
      else if timeRange = ''5Y'' then Some (setFullYear tza created (getFullYear tza now - 5))
      else None)"

definition filterDataByTimeRange ::
  "(int \<Rightarrow> bool \<Rightarrow> int) \<Rightarrow> (string \<Rightarrow> jsdate) \<Rightarrow> int \<Rightarrow> int \<Rightarrow> string
     \<Rightarrow> string StockData list option \<Rightarrow> string StockData list" where
  "filterDataByTimeRange tza fallback now created timeRange data =
     (case data of
        None \<Rightarrow> []
      | Some bars \<Rightarrow>
          (case cutoffDate tza now created timeRange of
             None \<Rightarrow> bars
           | Some cutoff \<Rightarrow>
               filter (\<lambda>item. date_ge (Date_parse fallback (date item)) cutoff) bars))"

definition filteredData ::
  "(int \<Rightarrow> bool \<Rightarrow> int) \<Rightarrow> (string \<Rightarrow> jsdate) \<Rightarrow> int \<Rightarrow> int \<Rightarrow> string
     \<Rightarrow> string StockData list option \<Rightarrow> string StockData list" where
  "filteredData tza fallback now created timeRange data =
     (case data of
        None \<Rightarrow> []
      | Some _ \<Rightarrow> filterDataByTimeRange tza fallback now created timeRange data)"

text \<open>\<open>calculateChange\<close> closes over \<open>data\<close>, the series as fetched. A first close of
  zero (taken as \<open>+0\<close>) makes the quotient an infinity, or NaN when the closes are equal.\<close>

definition calculateChange :: "string StockData list option \<Rightarrow> number" where
  "calculateChange data =
     (case data of
        None \<Rightarrow> Finite 0
      | Some bars \<Rightarrow>
          if length bars < 2 then Finite 0
          else (let diff = close (bars ! (length bars - 1)) - close (bars ! 0);
                    c = close (bars ! 0)
                in if c = 0
                   then (if diff > 0 then PosInfinity
                         else if diff < 0 then NegInfinity else NaN)
                   else Finite (diff / c * 100)))"

definition change :: "string StockData list option \<Rightarrow> number" where
  "change data = (case data of None \<Rightarrow> Finite 0 | Some _ \<Rightarrow> calculateChange data)"

text \<open>
  The range filter in the words of the specification: each range has a look-back period
  (years, months, days), and the cutoff is that period before \<open>now\<close>. An instant \<open>c\<close> is the
  period before \<open>t\<close>, in a zone \<open>z\<close> milliseconds east of Greenwich, when the local time
  \<open>days\<close> days after \<open>c\<close> has the day of the month and the time of day of \<open>t\<close> and lies
  the given number of calendar months (twelve to the year) before it. Nothing is carried:
  where the earlier month has no such day, no instant is the period before \<open>t\<close>.
\<close>

definition lookBack :: "string \<Rightarrow> (int \<times> int \<times> int) option" where
  "lookBack timeRange =
     (if timeRange = ''1D'' then Some (0, 0, 1)
      else if timeRange = ''1M'' then Some (0, 1, 0)
      else if timeRange = ''6M'' then Some (0, 6, 0)
      else if timeRange = ''1Y'' then Some (1, 0, 0)
      else if timeRange = ''5Y'' then Some (5, 0, 0)
      else None)"

definition periodBefore :: "int \<Rightarrow> int \<times> int \<times> int \<Rightarrow> int \<Rightarrow> int \<Rightarrow> bool" where
  "periodBefore z p t c =
     (case p of (years, months, days) \<Rightarrow>
        (let l = t + z; k = c + z + days * msPerDay
         in TimeWithinDay k = TimeWithinDay l \<and> DateFromTime k = DateFromTime l
            \<and> 12 * YearFromTime k + MonthFromTime k + (12 * years + months)
                = 12 * YearFromTime l + MonthFromTime l))"

text \<open>The percent change in the words of the specification, over a series of bars with
  a first close that is not zero.\<close>

definition percentChange :: "'d StockData list \<Rightarrow> real" where
  "percentChange bars =
     (if length bars < 2 then 0
      else (close (last bars) - close (hd bars)) / close (hd bars) * 100)"


section \<open>The fetcher\<close>

text \<open>
  \<open>fetcher\<close> works on the value \<open>res.json()\<close> resolves to. \<open>JObj kvs\<close> is an object
  whose own properties are the pairs of \<open>kvs\<close>, each key once, in the order in which
  \<open>Object.keys\<close> and \<open>Object.entries\<close> enumerate them. Strings are lists of code units.
\<close>

datatype json =
  JNull | JBool bool | JNum real | JStr string | JArr "json list" | JObj "(string \<times> json) list"

text \<open>\<open>new Error(v)\<close> keeps the value it is given; its message is that value as a string,
  the value itself when it is a string. \<open>TypeError\<close> is what reading a property of
  \<open>null\<close> or \<open>undefined\<close> throws.\<close>

datatype error = Error "json option" | TypeError

text \<open>The condition of an \<open>if\<close>: \<open>undefined\<close> (\<open>None\<close>), \<open>null\<close>, \<open>false\<close>, zero and
  the empty string are false, everything else is true.\<close>

fun truthy :: "json option \<Rightarrow> bool" where
  "truthy None = False"
| "truthy (Some JNull) = False"
| "truthy (Some (JBool b)) = b"
| "truthy (Some (JNum r)) = (r \<noteq> 0)"
| "truthy (Some (JStr s)) = (s \<noteq> [])"
| "truthy (Some (JArr xs)) = True"
| "truthy (Some (JObj kvs)) = True"

text \<open>An array index as a property key.\<close>

function decimal :: "nat \<Rightarrow> string" where
  "decimal n =
     (if n < 10 then [char_of (48 + n)]
      else decimal (n div 10) @ [char_of (48 + n mod 10)])"
  by pat_completeness auto
termination
  by (relation "measure id") auto

text \<open>\<open>Object.entries\<close>: the enumerable own properties. An array and a string have their
  indices, a number and a boolean have none.\<close>

fun entries :: "json \<Rightarrow> (string \<times> json) list" where
  "entries (JObj kvs) = kvs"
| "entries (JArr xs) = zip (map decimal [0..<length xs]) xs"
| "entries (JStr s) = zip (map decimal [0..<length s]) (map (\<lambda>c. JStr [c]) s)"
| "entries v = []"

text \<open>\<open>v[key]\<close> on a value that is not \<open>null\<close>, for the keys the fetcher reads: none of
  them is \<open>length\<close> or the name of an inherited property, so the own enumerable properties
  decide.\<close>

definition property :: "json \<Rightarrow> string \<Rightarrow> json option" where
  "property v key = map_of (entries v) key"

text \<open>\<open>key.includes(t)\<close>: \<open>t\<close> occurs in \<open>key\<close> as a contiguous run.\<close>

fun includes_str :: "string \<Rightarrow> string \<Rightarrow> bool" where
  "includes_str [] t = (t = [])"
| "includes_str (c # s) t = (prefix t (c # s) \<or> includes_str s t)"

definition rateLimitMessage :: string where
  "rateLimitMessage = ''API rate limit exceeded. Please try again in a minute.''"

definition noDataMessage :: string where
  "noDataMessage =
     ''No data available for this stock symbol. Please check the symbol and try again.''"

text \<open>The callback of the \<open>map\<close> over the entries of the time series. \<open>parseFloat\<close> is the
  platform's, a parameter here, applied to what the property read gives.\<close>

definition toBar :: "(json option \<Rightarrow> real) \<Rightarrow> string \<times> json \<Rightarrow> error + string StockData" where
  "toBar parseFloat entry =
     (case entry of (d, values) \<Rightarrow>
        if values = JNull then Inl TypeError
        else Inr \<lparr> date = d,
                   open' = parseFloat (property values ''1. open''),
                   high = parseFloat (property values ''2. high''),
                   low = parseFloat (property values ''3. low''),
                   close = parseFloat (property values ''4. close''),
                   volume = parseFloat (property values ''5. volume'') \<rparr>)"

fun mapE :: "('a \<Rightarrow> error + 'b) \<Rightarrow> 'a list \<Rightarrow> error + 'b list" where
  "mapE f [] = Inr []"
| "mapE f (x # xs) =
     (case f x of
        Inl e \<Rightarrow> Inl e
      | Inr y \<Rightarrow> (case mapE f xs of Inl e \<Rightarrow> Inl e | Inr ys \<Rightarrow> Inr (y # ys)))"

definition fetcher :: "(json option \<Rightarrow> real) \<Rightarrow> json \<Rightarrow> error + string StockData list" where
  "fetcher parseFloat data =
     (if data = JNull then Inl TypeError
      else if truthy (property data ''Error Message'')
      then Inl (Error (property data ''Error Message''))
      else if truthy (property data ''Note'')
      then Inl (Error (Some (JStr rateLimitMessage)))
      else
        (let timeSeriesKey = find (\<lambda>key. includes_str key ''Time Series'') (map fst (entries data));
             timeSeries = property data (case timeSeriesKey of Some key \<Rightarrow> key | None \<Rightarrow> ''undefined'')
         in case timeSeries of
              None \<Rightarrow> Inl (Error (Some (JStr noDataMessage)))
            | Some series \<Rightarrow>
                if \<not> truthy timeSeries then Inl (Error (Some (JStr noDataMessage)))
                else (case mapE (toBar parseFloat) (entries series) of
                        Inl e \<Rightarrow> Inl e
                      | Inr bars \<Rightarrow> Inr (rev bars))))"


section \<open>The chart renderer (\<open>StockChart\<close>)\<close>

text \<open>
  The effect of \<open>StockChart\<close> draws with d3. Its scales are d3's: the linear scale is
  written out below, the time scale and the date parser are parameters. What the effect
  computes from the bars (colours, the domain of the price scale, the width and the
  attributes of each candle, the bar under the pointer) is modelled as the code has it.
\<close>

definition upColor :: string where
  "upColor = ''rgb(34, 197, 94)''"

definition downColor :: string where
  "downColor = ''rgb(239, 68, 68)''"

definition innerWidth :: "real \<Rightarrow> real" where
  "innerWidth width = width - 60 - 30"

definition innerHeight :: "real \<Rightarrow> real" where
  "innerHeight height = height - 20 - 30"

definition formattedData :: "(string \<Rightarrow> jsdate) \<Rightarrow> string StockData list \<Rightarrow> jsdate StockData list" where
  "formattedData parseDate data =
     map (\<lambda>d. \<lparr> date = parseDate (date d), open' = open' d, high = high d, low = low d,
                 close = close d, volume = volume d \<rparr>) data"

text \<open>\<open>priceChange\<close> and \<open>chartColor\<close>; the effect has returned before them when there is
  no bar.\<close>

definition priceChange :: "jsdate StockData list \<Rightarrow> real" where
  "priceChange fd = close (fd ! (length fd - 1)) - close (fd ! 0)"

definition chartColor :: "jsdate StockData list \<Rightarrow> string" where
  "chartColor fd = (if priceChange fd \<ge> 0 then upColor else downColor)"

text \<open>\<open>d3.min\<close> and \<open>d3.max\<close> with an accessor: one pass that keeps the least (greatest)
  value seen, \<open>undefined\<close> on no value.\<close>

definition d3_min :: "('a \<Rightarrow> real) \<Rightarrow> 'a list \<Rightarrow> real option" where
  "d3_min f xs =
     fold (\<lambda>d m. case m of None \<Rightarrow> Some (f d)
                  | Some v \<Rightarrow> if v > f d then Some (f d) else Some v) xs None"

definition d3_max :: "('a \<Rightarrow> real) \<Rightarrow> 'a list \<Rightarrow> real option" where
  "d3_max f xs =
     fold (\<lambda>d m. case m of None \<Rightarrow> Some (f d)
                  | Some v \<Rightarrow> if v < f d then Some (f d) else Some v) xs None"

text \<open>\<open>d3.extent\<close> over the dates; \<open>null\<close> is skipped.\<close>

definition d3_extent :: "jsdate list \<Rightarrow> jsdate \<times> jsdate" where
  "d3_extent ds =
     fold (\<lambda>d (mn, mx). case d of None \<Rightarrow> (mn, mx)
             | Some v \<Rightarrow>
                 (case (mn, mx) of
                    (Some a, Some b) \<Rightarrow> (Some (if a > v then v else a), Some (if b < v then v else b))
                  | _ \<Rightarrow> (Some v, Some v))) ds (None, None)"

text \<open>The domain and the range of the vertical scale. The domain is \<open>None\<close> when an
  extreme is \<open>undefined\<close> and the products are NaN, which needs a series without bars.\<close>

definition y_domain :: "jsdate StockData list \<Rightarrow> (real \<times> real) option" where
  "y_domain fd =
     (case (d3_min (\<lambda>d. min (low d) (close d)) fd, d3_max (\<lambda>d. max (high d) (close d)) fd) of
        (Some lo, Some hi) \<Rightarrow> Some (lo * 0.995, hi * 1.005)
      | _ \<Rightarrow> None)"

definition y_range :: "real \<Rightarrow> real \<times> real" where
  "y_range height = (innerHeight height, 0)"

text \<open>A continuous d3 scale with two-point domain and range: normalise over the domain
  (from its smaller end), interpolate over the range; a domain of one point maps to the
  middle of the range.\<close>

definition normalize :: "real \<Rightarrow> real \<Rightarrow> real \<Rightarrow> real" where
  "normalize a b v = (if b - a = 0 then 0.5 else (v - a) / (b - a))"

definition interpolateNumber :: "real \<Rightarrow> real \<Rightarrow> real \<Rightarrow> real" where
  "interpolateNumber a b t = a * (1 - t) + b * t"

definition scaleLinear :: "real \<times> real \<Rightarrow> real \<times> real \<Rightarrow> real \<Rightarrow> real" where
  "scaleLinear dm rng v =
     (case (dm, rng) of ((d0, d1), (r0, r1)) \<Rightarrow>
        if d1 < d0 then interpolateNumber r1 r0 (normalize d1 d0 v)
        else interpolateNumber r0 r1 (normalize d0 d1 v))"

definition candlestickWidth :: "real \<Rightarrow> jsdate StockData list \<Rightarrow> real" where
  "candlestickWidth width fd = min ((innerWidth width / real (length fd)) * 0.8) 15"

text \<open>The attributes of the \<open>line\<close> (the wick) and of the \<open>rect\<close> (the body) that the
  \<open>each\<close> callback appends for a bar; \<open>x\<close>, \<open>y\<close> and \<open>candlestickWidth\<close> are the
  variables it closes over.\<close>

record candle =
  wick_x1 :: real
  wick_x2 :: real
  wick_y1 :: real
  wick_y2 :: real
  wick_stroke :: string
  body_x :: real
  body_y :: real
  body_width :: real
  body_height :: real
  body_fill :: string

definition isUp :: "jsdate StockData \<Rightarrow> bool" where
  "isUp d = (close d \<ge> open' d)"

definition candlestick ::
  "(jsdate \<Rightarrow> real) \<Rightarrow> (real \<Rightarrow> real) \<Rightarrow> real \<Rightarrow> jsdate StockData \<Rightarrow> candle" where
  "candlestick x y w d =
     \<lparr> wick_x1 = x (date d), wick_x2 = x (date d),
       wick_y1 = y (high d), wick_y2 = y (low d),
       wick_stroke = (if isUp d then upColor else downColor),
       body_x = x (date d) - w / 2,
       body_y = y (max (open' d) (close d)),
       body_width = w,
       body_height = \<bar>y (open' d) - y (close d)\<bar>,
       body_fill = (if isUp d then upColor else downColor) \<rparr>"

text \<open>What one run of the effect draws on a mounted \<open>svg\<close> element: nothing on an empty
  series (the guard at the head of the effect), the area and the line through the closes
  in the colour of the chart, or one candle per bar.\<close>

datatype glyphs = AreaLine string "(real \<times> real) list" | Candlesticks "candle list"

record chart =
  y_dom :: "real \<times> real"
  y_rng :: "real \<times> real"
  drawn :: glyphs

definition StockChart ::
  "(string \<Rightarrow> jsdate) \<Rightarrow> (jsdate \<times> jsdate \<Rightarrow> real \<times> real \<Rightarrow> jsdate \<Rightarrow> real)
     \<Rightarrow> string StockData list \<Rightarrow> bool \<Rightarrow> real \<Rightarrow> real \<Rightarrow> chart option" where
  "StockChart parseDate scaleTime data showCandlestick width height =
     (if length data = 0 then None
      else
        (let fd = formattedData parseDate data;
             x = scaleTime (d3_extent (map date fd)) (0, innerWidth width)
         in case y_domain fd of
              None \<Rightarrow> None
            | Some yd \<Rightarrow>
                (let y = scaleLinear yd (y_range height)
                 in Some \<lparr> y_dom = yd, y_rng = y_range height,
                             drawn =
                               (if \<not> showCandlestick
                                then AreaLine (chartColor fd) (map (\<lambda>d. (x (date d), y (close d))) fd)
                                else Candlesticks
                                       (map (candlestick x y (candlestickWidth width fd)) fd)) \<rparr>)))"

text \<open>
  The pointer handler. \<open>d3.bisector(d => d.date).left(a, x, lo, hi)\<close> compares with
  \<open>ascending\<close>, which is NaN when a side is \<open>null\<close> or an invalid date; the middle index is
  \<open>(lo + hi) >>> 1\<close>, a shift of the sum taken as an unsigned 32-bit integer. Reading the
  date of a bar the array does not have throws.
\<close>

definition ascending :: "jsdate \<Rightarrow> jsdate \<Rightarrow> int option" where
  "ascending a b =
     (case (a, b) of
        (Some p, Some q) \<Rightarrow> Some (if p < q then - 1 else if p > q then 1 else 0)
      | _ \<Rightarrow> None)"

partial_function (option) bisect_loop ::
  "jsdate StockData list \<Rightarrow> jsdate \<Rightarrow> nat \<Rightarrow> nat \<Rightarrow> (error + nat) option" where
  "bisect_loop a x lo hi =
     (let mid = ((lo + hi) mod 4294967296) div 2
      in if \<not> mid < length a then Some (Inl TypeError)
         else if ascending (date (a ! mid)) x = Some (- 1)
         then (if mid + 1 < hi then bisect_loop a x (mid + 1) hi else Some (Inr (mid + 1)))
         else (if lo < mid then bisect_loop a x lo mid else Some (Inr lo)))"

definition bisect_left ::
  "jsdate StockData list \<Rightarrow> jsdate \<Rightarrow> nat \<Rightarrow> nat \<Rightarrow> (error + nat) option" where
  "bisect_left a x lo hi =
     (if lo < hi
      then (if ascending x x \<noteq> Some 0 then Some (Inr hi) else bisect_loop a x lo hi)
      else Some (Inr lo))"

text \<open>\<open>mousemove\<close>: the bar whose fields fill the tooltip, for the date \<open>x0\<close> that the
  time scale inverts the pointer to. \<open>None\<close> is a search that does not return.\<close>

definition mousemove :: "jsdate StockData list \<Rightarrow> jsdate \<Rightarrow> (error + jsdate StockData) option" where
  "mousemove fd x0 =
     (case bisect_left fd x0 1 (length fd) of
        None \<Rightarrow> None
      | Some (Inl e) \<Rightarrow> Some (Inl e)
      | Some (Inr i) \<Rightarrow>
          if 1 \<le> i \<and> i - 1 < length fd then Some (Inr (fd ! (i - 1)))
          else Some (Inl TypeError))"


section \<open>The calendar: the year of a day\<close>

lemma div_bounds: "0 < n \<Longrightarrow> n * (z div n) \<le> z \<and> z - n + 1 \<le> n * (z div n)" for z n :: int
proof -
  assume n: "0 < n"
  have "z = n * (z div n) + z mod n" by simp
  moreover have "0 \<le> z mod n" "z mod n < n" using n by simp_all
  ultimately show ?thesis by linarith
qed

text \<open>The first day of a year is within a day and a half of the mean-year estimate.\<close>

lemma DayFromYear_bounds:
  "400 * DayFromYear (1970 + z) \<le> 146097 * z + 589
   \<and> 146097 * z \<le> 400 * DayFromYear (1970 + z) + 506"
proof -
  define a b c where "a = (1 + z) div 4" and "b = (69 + z) div 100" and "c = (369 + z) div 400"
  have a: "4 * a \<le> z + 1" "z \<le> 4 * a + 2"
    using div_bounds [of 4 "1 + z"] by (simp_all add: a_def)
  have b: "100 * b \<le> z + 69" "z \<le> 100 * b + 30"
    using div_bounds [of 100 "69 + z"] by (simp_all add: b_def)
  have c: "400 * c \<le> z + 369" "z \<le> 400 * c + 30"
    using div_bounds [of 400 "369 + z"] by (simp_all add: c_def)
  have "DayFromYear (1970 + z) = 365 * z + a - b + c"
    by (simp add: DayFromYear_def a_def b_def c_def)
  then show ?thesis using a b c by linarith
qed

text \<open>\<open>YearFromDay\<close> is the year ECMA-262 asks for: its first day is not after \<open>d\<close>, the
  first day of the next year is.\<close>

lemma YearFromDay_bounds:
  "DayFromYear (YearFromDay d) \<le> d \<and> d < DayFromYear (YearFromDay d + 1)"
proof -
  define k where "k = (400 * d) div 146097"
  have k: "146097 * k \<le> 400 * d" "400 * d \<le> 146097 * k + 146096"
    using div_bounds [of 146097 "400 * d"] by (simp_all add: k_def)
  define m n where "m = k - 1" and "n = k + 2"
  define lo hi where "lo = DayFromYear (1970 + m)" and "hi = DayFromYear (1970 + n)"
  have "400 * lo \<le> 146097 * m + 589" "146097 * n \<le> 400 * hi + 506"
    using DayFromYear_bounds [of m] DayFromYear_bounds [of n] by (simp_all add: lo_def hi_def)
  moreover have "k = m + 1" "n = m + 3" by (simp_all add: m_def n_def)
  ultimately have lo: "lo \<le> d" and hi: "d < hi"
    using k by linarith+
  have lo': "DayFromYear (1969 + k) \<le> d"
    using lo by (simp add: lo_def m_def)
  have hi': "d < DayFromYear (1972 + k)"
    using hi by (simp add: hi_def n_def)
  show ?thesis
    unfolding YearFromDay_def Let_def k_def [symmetric]
    using lo' hi' by auto
qed


section \<open>The range filter\<close>

text \<open>Setting the day of the month moves the day count by the difference.\<close>

lemma monthOfDay_range: "0 \<le> monthOfDay leap d \<and> monthOfDay leap d \<le> 11"
  by (simp add: monthOfDay_def)

lemma MakeDay_same_month:
  "MakeDay (YearFromTime l) (MonthFromTime l) dt = Day l + (dt - DateFromTime l)"
proof -
  have m: "0 \<le> MonthFromTime l" "MonthFromTime l \<le> 11"
    using monthOfDay_range [of "InLeapYear l" "DayWithinYear l"] by (simp_all add: MonthFromTime_def)
  then have "MonthFromTime l div 12 = 0" "MonthFromTime l mod 12 = MonthFromTime l"
    by simp_all
  then show ?thesis
    by (simp add: MakeDay_def DateFromTime_def DayWithinYear_def InLeapYear_def)
qed

lemma day_decompose: "Day t * msPerDay + TimeWithinDay t = t"
  by (simp add: Day_def TimeWithinDay_def)

lemma Day_of_parts:
  "0 \<le> tod \<Longrightarrow> tod < msPerDay \<Longrightarrow> Day (d * msPerDay + tod) = d \<and> TimeWithinDay (d * msPerDay + tod) = tod"
  by (simp add: Day_def TimeWithinDay_def msPerDay_def)

text \<open>The calendar fields of a time are those of its day.\<close>

lemma fields_of_day:
  assumes "0 \<le> tod" and "tod < msPerDay"
  shows "YearFromTime (d * msPerDay + tod) = YearFromDay d"
    and "MonthFromTime (d * msPerDay + tod)
           = monthOfDay (if DaysInYear (YearFromDay d) = 366 then 1 else 0)
               (d - DayFromYear (YearFromDay d))"
    and "DateFromTime (d * msPerDay + tod)
           = d - DayFromYear (YearFromDay d)
             - monthStart (if DaysInYear (YearFromDay d) = 366 then 1 else 0)
                 (monthOfDay (if DaysInYear (YearFromDay d) = 366 then 1 else 0)
                    (d - DayFromYear (YearFromDay d))) + 1"
  using Day_of_parts [OF assms, of d]
  by (simp_all add: YearFromTime_def MonthFromTime_def DateFromTime_def InLeapYear_def
      DayWithinYear_def)

lemma june_15_fields:
  assumes "0 \<le> tod" and "tod < msPerDay"
  shows "YearFromTime (19889 * msPerDay + tod) = 2024"
    and "MonthFromTime (19889 * msPerDay + tod) = 5"
    and "DateFromTime (19889 * msPerDay + tod) = 15"
proof -
  have y: "YearFromDay 19889 = 2024" by (simp add: YearFromDay_def DayFromYear_def)
  have s: "DayFromYear 2024 = 19723" "DaysInYear 2024 = 366"
    by (simp_all add: DayFromYear_def DaysInYear_def)
  show "YearFromTime (19889 * msPerDay + tod) = 2024"
    "MonthFromTime (19889 * msPerDay + tod) = 5"
    "DateFromTime (19889 * msPerDay + tod) = 15"
    unfolding fields_of_day [OF assms] y s by (simp_all add: monthOfDay_def monthStart_def)
qed

lemma may_15_fields:
  assumes "0 \<le> tod" and "tod < msPerDay"
  shows "YearFromTime (19858 * msPerDay + tod) = 2024"
    and "MonthFromTime (19858 * msPerDay + tod) = 4"
    and "DateFromTime (19858 * msPerDay + tod) = 15"
proof -
  have y: "YearFromDay 19858 = 2024" by (simp add: YearFromDay_def DayFromYear_def)
  have s: "DayFromYear 2024 = 19723" "DaysInYear 2024 = 366"
    by (simp_all add: DayFromYear_def DaysInYear_def)
  show "YearFromTime (19858 * msPerDay + tod) = 2024"
    "MonthFromTime (19858 * msPerDay + tod) = 4"
    "DateFromTime (19858 * msPerDay + tod) = 15"
    unfolding fields_of_day [OF assms] y s by (simp_all add: monthOfDay_def monthStart_def)
qed

text \<open>The example of the specification: the local date is 15 June 2024, at any time
  \<open>tod\<close> of the day, in a zone \<open>z\<close> milliseconds east of Greenwich. The cutoff of range 1M
  is 15 May at the same time of day, which is one month before.\<close>

lemma june_15_cutoff:
  assumes "0 \<le> tod" and "tod < msPerDay"
  shows "cutoffDate (\<lambda>_ _. z) (19889 * msPerDay + tod - z) (19889 * msPerDay + tod - z) ''1M''
           = Some (TimeClip (19858 * msPerDay + tod - z))"
    and "periodBefore z (0, 1, 0) (19889 * msPerDay + tod - z) (19858 * msPerDay + tod - z)"
proof -
  have l: "TimeWithinDay (19889 * msPerDay + tod) = tod" "TimeWithinDay (19858 * msPerDay + tod) = tod"
    using Day_of_parts [OF assms] by simp_all
  have d: "MakeDay 2024 4 15 = 19858"
    by (simp add: MakeDay_def DayFromYear_def DaysInYear_def monthStart_def)
  show "cutoffDate (\<lambda>_ _. z) (19889 * msPerDay + tod - z) (19889 * msPerDay + tod - z) ''1M''
           = Some (TimeClip (19858 * msPerDay + tod - z))"
    by (simp add: cutoffDate_def setMonth_def getMonth_def LocalTime_def UTC_def
        june_15_fields [OF assms] l d MakeDate_def)
  show "periodBefore z (0, 1, 0) (19889 * msPerDay + tod - z) (19858 * msPerDay + tod - z)"
    by (simp add: periodBefore_def june_15_fields [OF assms] may_15_fields [OF assms] l)
qed

lemmas parse_defs = Date_parse_def isoDateOnly_def is_digit_def decimal_value_def daysInMonth_def
  DaysInYear_def monthStart_def MakeDay_def MakeDate_def TimeClip_def DayFromYear_def msPerDay_def

lemma parse_may_1: "Date_parse fallback ''2024-05-01'' = Some (19844 * msPerDay)"
  by (simp add: parse_defs)

lemma parse_june_1: "Date_parse fallback ''2024-06-01'' = Some (19875 * msPerDay)"
  by (simp add: parse_defs)

lemma june_15_example:
  assumes "0 \<le> tod" and "tod < msPerDay" and "\<bar>z\<bar> \<le> 14 * 3600000"
  shows "filterDataByTimeRange (\<lambda>_ _. z) fallback (19889 * msPerDay + tod - z)
           (19889 * msPerDay + tod - z) ''1M'' (Some bars)
         = filter (\<lambda>item. date_ge (Date_parse fallback (date item))
                                (Some (19858 * msPerDay + tod - z))) bars"
    and "\<not> date_ge (Date_parse fallback ''2024-05-01'') (Some (19858 * msPerDay + tod - z))"
    and "date_ge (Date_parse fallback ''2024-06-01'') (Some (19858 * msPerDay + tod - z))"
proof -
  have "TimeClip (19858 * msPerDay + tod - z) = Some (19858 * msPerDay + tod - z)"
    using assms by (simp add: TimeClip_def msPerDay_def)
  then show "filterDataByTimeRange (\<lambda>_ _. z) fallback (19889 * msPerDay + tod - z)
           (19889 * msPerDay + tod - z) ''1M'' (Some bars)
         = filter (\<lambda>item. date_ge (Date_parse fallback (date item))
                                (Some (19858 * msPerDay + tod - z))) bars"
    by (simp add: filterDataByTimeRange_def june_15_cutoff(1) [OF assms(1,2)])
  show "\<not> date_ge (Date_parse fallback ''2024-05-01'') (Some (19858 * msPerDay + tod - z))"
    unfolding parse_may_1 using assms by (simp add: date_ge_def msPerDay_def)
  show "date_ge (Date_parse fallback ''2024-06-01'') (Some (19858 * msPerDay + tod - z))"
    unfolding parse_june_1 using assms by (simp add: date_ge_def msPerDay_def)
qed

text \<open>One day back is 24 hours back, wherever the offset of local time is constant and
  the clock is read once.\<close>

lemma one_day_back:
  "cutoffDate (\<lambda>_ _. z) t t ''1D'' = Some (TimeClip (t - msPerDay))"
proof -
  have "MakeDate (MakeDay (YearFromTime (t + z)) (MonthFromTime (t + z)) (DateFromTime (t + z) - 1))
          (TimeWithinDay (t + z)) = (Day (t + z) - 1) * msPerDay + TimeWithinDay (t + z)"
    by (simp add: MakeDate_def MakeDay_same_month)
  also have "\<dots> = t + z - msPerDay"
    using day_decompose [of "t + z"] by (simp add: algebra_simps)
  finally show ?thesis
    by (simp add: cutoffDate_def setDate_def getDate_def LocalTime_def UTC_def)
qed

text \<open>The years follow one another, so the year of a day is the only year that holds
  it, and a date that its month has is read back from the day \<open>MakeDay\<close> gives.\<close>

lemma div_step: "(x + 1) div n = x div n + (if (x + 1) mod n = 0 then 1 else 0)" if "0 < n" for x n :: int
proof -
  define q r where "q = x div n" and "r = x mod n"
  have x: "x = q * n + r" and r: "0 \<le> r" "r < n"
    using that by (simp_all add: q_def r_def)
  show ?thesis
  proof (cases "r + 1 = n")
    case True
    then have "x + 1 = (q + 1) * n" using x by (simp add: algebra_simps)
    then show ?thesis using that by (simp add: q_def)
  next
    case False
    then have s: "0 < r + 1" "r + 1 < n" using r by simp_all
    have e: "x + 1 = q * n + (r + 1)" using x by simp
    have "(x + 1) div n = q" "(x + 1) mod n = r + 1"
      unfolding e using s that by (simp_all add: div_pos_pos_trivial)
    then show ?thesis using s by (simp add: q_def)
  qed
qed

lemma DayFromYear_next: "DayFromYear (y + 1) = DayFromYear y + DaysInYear y"
proof -
  define a b c :: int where "a = (if y mod 4 = 0 then 1 else 0)"
    and "b = (if y mod 100 = 0 then 1 else 0)" and "c = (if y mod 400 = 0 then 1 else 0)"
  have m: "(y - 1968) mod 4 = 0 \<longleftrightarrow> y mod 4 = 0" "(y - 1900) mod 100 = 0 \<longleftrightarrow> y mod 100 = 0"
    "(y - 1600) mod 400 = 0 \<longleftrightarrow> y mod 400 = 0"
    using mod_diff_eq [of y 4 1968] mod_diff_eq [of y 100 1900] mod_diff_eq [of y 400 1600]
    by simp_all
  have a: "(y - 1968) div 4 = (y - 1969) div 4 + a"
    using div_step [of 4 "y - 1969"] by (simp add: a_def m)
  have b: "(y - 1900) div 100 = (y - 1901) div 100 + b"
    using div_step [of 100 "y - 1901"] by (simp add: b_def m)
  have c: "(y - 1600) div 400 = (y - 1601) div 400 + c"
    using div_step [of 400 "y - 1601"] by (simp add: c_def m)
  have i: "y mod 100 = 0 \<Longrightarrow> y mod 4 = 0" "y mod 400 = 0 \<Longrightarrow> y mod 100 = 0"
    using dvd_trans [of 4 100 y] dvd_trans [of 100 400 y] by (simp_all add: mod_eq_0_iff_dvd)
  have n: "DaysInYear y = 365 + a - b + c"
    using i by (auto simp: DaysInYear_def a_def b_def c_def)
  have "DayFromYear (y + 1) = 365 * (y - 1969) + (y - 1968) div 4 - (y - 1900) div 100 + (y - 1600) div 400"
    by (simp add: DayFromYear_def)
  also have "\<dots> = 365 * (y - 1970) + (y - 1969) div 4 - (y - 1901) div 100 + (y - 1601) div 400
                    + (365 + a - b + c)"
    unfolding a b c by simp
  finally show ?thesis
    by (simp add: DayFromYear_def n)
qed


lemma DaysInYear_range: "365 \<le> DaysInYear y \<and> DaysInYear y \<le> 366"
  by (simp add: DaysInYear_def)

lemma DayFromYear_mono: "y \<le> y' \<Longrightarrow> DayFromYear y \<le> DayFromYear y'"
proof (induction y' rule: int_ge_induct)
  case base
  show ?case by simp
next
  case (step i)
  then show ?case
    using DayFromYear_next [of i] DaysInYear_range [of i] by simp
qed

lemma YearFromDay_unique:
  assumes "DayFromYear y \<le> d" and "d < DayFromYear (y + 1)"
  shows "YearFromDay d = y"
proof (rule ccontr)
  assume ne: "YearFromDay d \<noteq> y"
  have b: "DayFromYear (YearFromDay d) \<le> d" "d < DayFromYear (YearFromDay d + 1)"
    using YearFromDay_bounds [of d] by simp_all
  show False
  proof (cases "YearFromDay d < y")
    case True
    then have "DayFromYear (YearFromDay d + 1) \<le> DayFromYear y"
      by (intro DayFromYear_mono) simp
    then show False using b(2) assms(1) by simp
  next
    case False
    then have "DayFromYear (y + 1) \<le> DayFromYear (YearFromDay d)"
      using ne by (intro DayFromYear_mono) simp
    then show False using b(1) assms(2) by simp
  qed
qed

lemma month_cases:
  "0 \<le> m \<Longrightarrow> m \<le> 11 \<Longrightarrow>
     m = 0 \<or> m = 1 \<or> m = 2 \<or> m = 3 \<or> m = 4 \<or> m = 5 \<or> m = 6 \<or> m = 7 \<or> m = 8 \<or> m = 9
     \<or> m = 10 \<or> m = (11::int)"
  by arith

lemma monthOfDay_monthStart:
  assumes "0 \<le> m" and "m \<le> 11" and "leap = 0 \<or> leap = 1"
    and "1 \<le> dt" and "dt \<le> monthStart leap (m + 1) - monthStart leap m"
  shows "monthOfDay leap (monthStart leap m + dt - 1) = m"
  using month_cases [OF assms(1,2)] assms(3,4,5)
  by (elim disjE) (simp_all add: monthOfDay_def monthStart_def)

lemma monthStart_bounds:
  assumes "0 \<le> m" and "m \<le> 11" and "leap = 0 \<or> leap = 1"
  shows "0 \<le> monthStart leap m \<and> monthStart leap (m + 1) \<le> 365 + leap"
  using month_cases [OF assms(1,2)] assms(3)
  by (elim disjE) (simp_all add: monthStart_def)

text \<open>A day that the month has, read back: \<open>MakeDay\<close> and the field readers are inverse.\<close>

lemma civil_round_trip:
  assumes "0 \<le> m" and "m \<le> 11" and "1 \<le> dt" and "dt \<le> daysInMonth y (m + 1)"
    and "0 \<le> tod" and "tod < msPerDay"
  shows "YearFromTime (MakeDate (MakeDay y m dt) tod) = y"
    and "MonthFromTime (MakeDate (MakeDay y m dt) tod) = m"
    and "DateFromTime (MakeDate (MakeDay y m dt) tod) = dt"
    and "TimeWithinDay (MakeDate (MakeDay y m dt) tod) = tod"
proof -
  define leap :: int where "leap = (if DaysInYear y = 366 then 1 else 0)"
  define w where "w = monthStart leap m + dt - 1"
  have lp: "leap = 0 \<or> leap = 1" by (simp add: leap_def)
  have dm: "dt \<le> monthStart leap (m + 1) - monthStart leap m"
    using assms(4) by (simp add: daysInMonth_def leap_def Let_def)
  have diy: "DaysInYear y = 365 + leap"
    using DaysInYear_range [of y] by (auto simp: leap_def DaysInYear_def)
  have mk: "MakeDay y m dt = DayFromYear y + w"
    using assms(1,2) by (simp add: MakeDay_def leap_def w_def)
  have w: "0 \<le> w" "w < DaysInYear y"
    using monthStart_bounds [OF assms(1,2) lp] assms(3) dm by (simp_all add: w_def diy)
  have yr: "YearFromDay (DayFromYear y + w) = y"
    using w by (intro YearFromDay_unique) (simp_all add: DayFromYear_next)
  have mo: "monthOfDay leap w = m"
    unfolding w_def by (rule monthOfDay_monthStart [OF assms(1,2) lp assms(3) dm])
  have f: "MakeDate (MakeDay y m dt) tod = (DayFromYear y + w) * msPerDay + tod"
    by (simp add: MakeDate_def mk)
  show "YearFromTime (MakeDate (MakeDay y m dt) tod) = y"
    unfolding f fields_of_day [OF assms(5,6)] by (rule yr)
  show "MonthFromTime (MakeDate (MakeDay y m dt) tod) = m"
    unfolding f fields_of_day [OF assms(5,6)] yr by (simp add: leap_def [symmetric] mo)
  show "DateFromTime (MakeDate (MakeDay y m dt) tod) = dt"
    unfolding f fields_of_day [OF assms(5,6)] yr by (simp add: leap_def [symmetric] mo) (simp add: w_def)
  show "TimeWithinDay (MakeDate (MakeDay y m dt) tod) = tod"
    unfolding f using Day_of_parts [OF assms(5,6)] by simp
qed


text \<open>
  What the code gets right. When the two readings of the clock fall on the same local day
  (the offset of local time being constant), the cutoff is the look-back period before the
  second reading: for range 1D always, for the other ranges when the month arrived at has
  the day of the month of \<open>now\<close>.
\<close>

lemma fields_same_day:
  assumes "Day s = Day t"
  shows "YearFromTime s = YearFromTime t" and "MonthFromTime s = MonthFromTime t"
    and "DateFromTime s = DateFromTime t"
  using assms
  by (simp_all add: YearFromTime_def MonthFromTime_def DateFromTime_def InLeapYear_def
      DayWithinYear_def)

lemma monthStart_monthOfDay:
  "0 \<le> d \<Longrightarrow> leap = 0 \<or> leap = 1 \<Longrightarrow> monthStart leap (monthOfDay leap d) \<le> d"
  by (auto simp: monthOfDay_def monthStart_def)

lemma DateFromTime_pos: "1 \<le> DateFromTime t"
proof -
  have "0 \<le> DayWithinYear t"
    using YearFromDay_bounds [of "Day t"] by (simp add: DayWithinYear_def YearFromTime_def)
  moreover have "InLeapYear t = 0 \<or> InLeapYear t = 1"
    by (simp add: InLeapYear_def)
  ultimately show ?thesis
    using monthStart_monthOfDay [of "DayWithinYear t" "InLeapYear t"]
    by (simp add: DateFromTime_def MonthFromTime_def)
qed

lemma TimeWithinDay_range: "0 \<le> TimeWithinDay t \<and> TimeWithinDay t < msPerDay"
  by (simp add: TimeWithinDay_def msPerDay_def)

lemma MakeDay_months: "MakeDay y m dt = MakeDay ((12 * y + m) div 12) ((12 * y + m) mod 12) dt"
proof -
  have "(12 * y + m) div 12 = y + m div 12" "(12 * y + m) mod 12 = m mod 12"
    by simp_all
  then show ?thesis by (simp add: MakeDay_def)
qed

text \<open>Setting the month or the year of a date gives the date that many calendar months
  before, when the month arrived at has the day.\<close>

lemma months_back:
  assumes "12 * y + m + (12 * years + months) = 12 * YearFromTime l + MonthFromTime l"
    and "DateFromTime l \<le> daysInMonth ((12 * y + m) div 12) ((12 * y + m) mod 12 + 1)"
  shows "periodBefore z (years, months, 0) (l - z)
           (MakeDate (MakeDay y m (DateFromTime l)) (TimeWithinDay l) - z)"
proof -
  define q r where "q = (12 * y + m) div 12" and "r = (12 * y + m) mod 12"
  have r: "0 \<le> r" "r \<le> 11" by (simp_all add: r_def)
  have qr: "12 * q + r = 12 * y + m" by (simp add: q_def r_def)
  have mk: "MakeDay y m (DateFromTime l) = MakeDay q r (DateFromTime l)"
    unfolding q_def r_def by (rule MakeDay_months)
  have ex: "DateFromTime l \<le> daysInMonth q (r + 1)"
    using assms(2) by (simp add: q_def r_def)
  note rt = civil_round_trip [OF r DateFromTime_pos ex TimeWithinDay_range [of l, THEN conjunct1]
      TimeWithinDay_range [of l, THEN conjunct2]]
  show ?thesis
    using assms(1) qr by (simp add: periodBefore_def mk rt)
qed

lemma cutoff_is_period_before:
  assumes "Day (now + z) = Day (created + z)"
    and "lookBack timeRange = Some (years, months, days)"
    and "timeRange \<noteq> ''1D'' \<Longrightarrow>
           DateFromTime (created + z)
             \<le> daysInMonth
                 ((12 * YearFromTime (created + z) + MonthFromTime (created + z)
                     - (12 * years + months)) div 12)
                 ((12 * YearFromTime (created + z) + MonthFromTime (created + z)
                     - (12 * years + months)) mod 12 + 1)"
  shows "\<exists>c. cutoffDate (\<lambda>_ _. z) now created timeRange = Some (TimeClip c)
             \<and> periodBefore z (years, months, days) created c"
proof -
  define l where "l = created + z"
  note f = fields_same_day [OF assms(1), folded l_def]
  have cases: "timeRange = ''1D'' \<or> timeRange = ''1M'' \<or> timeRange = ''6M''
                 \<or> timeRange = ''1Y'' \<or> timeRange = ''5Y''"
    using assms(2) by (auto simp: lookBack_def split: if_splits)
  have setters:
    "setMonth (\<lambda>_ _. z) created m
       = TimeClip (MakeDate (MakeDay (YearFromTime l) m (DateFromTime l)) (TimeWithinDay l) - z)"
    "setFullYear (\<lambda>_ _. z) created y
       = TimeClip (MakeDate (MakeDay y (MonthFromTime l) (DateFromTime l)) (TimeWithinDay l) - z)"
    for m y
    by (simp_all add: setMonth_def setFullYear_def LocalTime_def UTC_def l_def Let_def)
  have earlier: "periodBefore z (years, months, 0) created
                (MakeDate (MakeDay y m (DateFromTime l)) (TimeWithinDay l) - z)"
    if "12 * y + m + (12 * years + months) = 12 * YearFromTime l + MonthFromTime l"
      and "timeRange \<noteq> ''1D''" for y m
  proof -
    have e: "12 * y + m = 12 * YearFromTime l + MonthFromTime l - (12 * years + months)"
      using that(1) by simp
    have "created = l - z" by (simp add: l_def)
    then show ?thesis
      using months_back [OF that(1), of z] assms(3) [OF that(2)] by (simp add: e l_def)
  qed
  from cases show ?thesis
  proof (elim disjE)
    assume r: "timeRange = ''1D''"
    have "MakeDate (MakeDay (YearFromTime l) (MonthFromTime l) (DateFromTime l - 1))
            (TimeWithinDay l) = (Day l - 1) * msPerDay + TimeWithinDay l"
      by (simp add: MakeDate_def MakeDay_same_month)
    also have "\<dots> = l - msPerDay"
      using day_decompose [of l] by (simp add: algebra_simps)
    finally have "cutoffDate (\<lambda>_ _. z) now created timeRange = Some (TimeClip (created - msPerDay))"
      by (simp add: r cutoffDate_def setDate_def getDate_def LocalTime_def UTC_def f
          l_def [symmetric]) (simp add: l_def)
    moreover have "periodBefore z (years, months, days) created (created - msPerDay)"
      using assms(2) by (simp add: r lookBack_def periodBefore_def)
    ultimately show ?thesis by blast
  next
    assume r: "timeRange = ''1M''"
    then have p: "years = 0" "months = 1" "days = 0"
      using assms(2) by (simp_all add: lookBack_def)
    show ?thesis
      using earlier [of "YearFromTime l" "MonthFromTime l - 1"]
      by (simp add: r p cutoffDate_def getMonth_def LocalTime_def f l_def [symmetric] setters) blast
  next
    assume r: "timeRange = ''6M''"
    then have p: "years = 0" "months = 6" "days = 0"
      using assms(2) by (simp_all add: lookBack_def)
    show ?thesis
      using earlier [of "YearFromTime l" "MonthFromTime l - 6"]
      by (simp add: r p cutoffDate_def getMonth_def LocalTime_def f l_def [symmetric] setters) blast
  next
    assume r: "timeRange = ''1Y''"
    then have p: "years = 1" "months = 0" "days = 0"
      using assms(2) by (simp_all add: lookBack_def)
    show ?thesis
      using earlier [of "YearFromTime l - 1" "MonthFromTime l"]
      by (simp add: r p cutoffDate_def getFullYear_def LocalTime_def f l_def [symmetric] setters) blast
  next
    assume r: "timeRange = ''5Y''"
    then have p: "years = 5" "months = 0" "days = 0"
      using assms(2) by (simp_all add: lookBack_def)
    show ?thesis
      using earlier [of "YearFromTime l - 5" "MonthFromTime l"]
      by (simp add: r p cutoffDate_def getFullYear_def LocalTime_def f l_def [symmetric] setters) blast
  qed
qed

text \<open>The 31st of March 2024, noon, in the zone of UTC.\<close>

lemma march_31_fields:
  assumes "0 \<le> tod" and "tod < msPerDay"
  shows "YearFromTime (19813 * msPerDay + tod) = 2024"
    and "MonthFromTime (19813 * msPerDay + tod) = 2"
    and "DateFromTime (19813 * msPerDay + tod) = 31"
proof -
  have y: "YearFromDay 19813 = 2024" by (simp add: YearFromDay_def DayFromYear_def)
  have s: "DayFromYear 2024 = 19723" "DaysInYear 2024 = 366"
    by (simp_all add: DayFromYear_def DaysInYear_def)
  show "YearFromTime (19813 * msPerDay + tod) = 2024"
    "MonthFromTime (19813 * msPerDay + tod) = 2"
    "DateFromTime (19813 * msPerDay + tod) = 31"
    unfolding fields_of_day [OF assms] y s by (simp_all add: monthOfDay_def monthStart_def)
qed

lemma march_2_fields:
  assumes "0 \<le> tod" and "tod < msPerDay"
  shows "YearFromTime (19784 * msPerDay + tod) = 2024"
    and "MonthFromTime (19784 * msPerDay + tod) = 2"
    and "DateFromTime (19784 * msPerDay + tod) = 2"
proof -
  have y: "YearFromDay 19784 = 2024" by (simp add: YearFromDay_def DayFromYear_def)
  have s: "DayFromYear 2024 = 19723" "DaysInYear 2024 = 366"
    by (simp_all add: DayFromYear_def DaysInYear_def)
  show "YearFromTime (19784 * msPerDay + tod) = 2024"
    "MonthFromTime (19784 * msPerDay + tod) = 2"
    "DateFromTime (19784 * msPerDay + tod) = 2"
    unfolding fields_of_day [OF assms] y s by (simp_all add: monthOfDay_def monthStart_def)
qed

lemma march_31_cutoff:
  "cutoffDate (\<lambda>_ _. 0) 1711886400000 1711886400000 ''1M'' = Some (Some 1709380800000)"
proof -
  have n: "(1711886400000::int) = 19813 * msPerDay + 43200000" by (simp add: msPerDay_def)
  have t: "(0::int) \<le> 43200000" "(43200000::int) < msPerDay" by (simp_all add: msPerDay_def)
  have l: "TimeWithinDay (19813 * msPerDay + 43200000) = 43200000"
    using Day_of_parts [OF t] by simp
  have d: "MakeDay 2024 1 31 = 19784"
    by (simp add: MakeDay_def DayFromYear_def DaysInYear_def monthStart_def)
  show ?thesis
    unfolding n
    by (simp add: cutoffDate_def setMonth_def getMonth_def LocalTime_def UTC_def
        march_31_fields [OF t] l d MakeDate_def)
       (simp add: msPerDay_def TimeClip_def)
qed

lemma parse_march:
  "Date_parse (\<lambda>_. None) ''2024-03-01'' = Some 1709251200000"
  "Date_parse (\<lambda>_. None) ''2024-03-15'' = Some 1710460800000"
  by (simp_all add: parse_defs)

text \<open>
  Claim C2. The range filter keeps exactly the bars whose date is at or after the cutoff,
  the cutoff being the look-back period of the range (1 day for 1D, 1 month for 1M,
  6 months for 6M, 1 year for 1Y, 5 years for 5Y) before the current date; \<open>ALL\<close> and any
  other range return the bars as they are; on 15 June 2024 with range 1M a bar dated
  2024-05-01 is dropped and one dated 2024-06-01 is kept. The code sets the month of a
  fresh date to the month before, and a day that month does not have is carried on: at
  noon on 31 March 2024 the cutoff of range 1M is noon on 2 March, in the month of \<open>now\<close>
  and not one month before it, and a bar dated 2024-03-01 is dropped.
\<close>

theorem cutoff_carries_past_month_end:
  "cutoffDate (\<lambda>_ _. 0) 1711886400000 1711886400000 ''1M'' = Some (Some 1709380800000)
   \<and> (YearFromTime 1711886400000, MonthFromTime 1711886400000, DateFromTime 1711886400000)
       = (2024, 2, 31)
   \<and> (YearFromTime 1709380800000, MonthFromTime 1709380800000, DateFromTime 1709380800000)
       = (2024, 2, 2)
   \<and> lookBack ''1M'' = Some (0, 1, 0)
   \<and> \<not> periodBefore 0 (0, 1, 0) 1711886400000 1709380800000
   \<and> map date (filterDataByTimeRange (\<lambda>_ _. 0) (\<lambda>_. None) 1711886400000 1711886400000 ''1M''
        (Some [\<lparr>date = ''2024-03-01'', open' = 100, high = 101, low = 99, close = 100, volume = 5\<rparr>,
               \<lparr>date = ''2024-03-15'', open' = 100, high = 111, low = 99, close = 110, volume = 7\<rparr>]))
       = [''2024-03-15'']"
proof -
  have n: "(1711886400000::int) = 19813 * msPerDay + 43200000"
    and c: "(1709380800000::int) = 19784 * msPerDay + 43200000"
    by (simp_all add: msPerDay_def)
  have t: "(0::int) \<le> 43200000" "(43200000::int) < msPerDay" by (simp_all add: msPerDay_def)
  have fn: "YearFromTime 1711886400000 = 2024" "MonthFromTime 1711886400000 = 2"
    "DateFromTime 1711886400000 = 31"
    unfolding n by (rule march_31_fields [OF t])+
  have fc: "YearFromTime 1709380800000 = 2024" "MonthFromTime 1709380800000 = 2"
    "DateFromTime 1709380800000 = 2"
    unfolding c by (rule march_2_fields [OF t])+
  have "\<not> periodBefore 0 (0, 1, 0) 1711886400000 1709380800000"
    by (simp add: periodBefore_def fn fc)
  then show ?thesis
    by (simp add: fn fc lookBack_def march_31_cutoff filterDataByTimeRange_def parse_march
        date_ge_def)
qed

text \<open>The two readings of the clock: \<open>now\<close> in the last millisecond of 31 January 2024 and
  the initial \<open>cutoffDate\<close> in the first of 1 February give, for range 1D, the cutoff
  1 March, and the bar of 1 February is dropped.\<close>

lemma cutoff_two_clock_readings:
  "cutoffDate (\<lambda>_ _. 0) 1706745599999 1706745600000 ''1D'' = Some (Some 1709251200000)
   \<and> filterDataByTimeRange (\<lambda>_ _. 0) (\<lambda>_. None) 1706745599999 1706745600000 ''1D''
        (Some [\<lparr>date = ''2024-02-01'', open' = 100, high = 101, low = 99, close = 100, volume = 5\<rparr>])
       = []"
proof -
  have n: "(1706745599999::int) = 19753 * msPerDay + 86399999"
    and c: "(1706745600000::int) = 19754 * msPerDay"
    by (simp_all add: msPerDay_def)
  have t: "(0::int) \<le> 86399999" "(86399999::int) < msPerDay"
    and u: "(0::int) \<le> 0" "(0::int) < msPerDay" by (simp_all add: msPerDay_def)
  have s: "DayFromYear 2024 = 19723" "DaysInYear 2024 = 366"
    by (simp_all add: DayFromYear_def DaysInYear_def)
  have y: "YearFromDay 19753 = 2024" "YearFromDay 19754 = 2024"
    by (simp_all add: YearFromDay_def DayFromYear_def)
  have dn: "DateFromTime (19753 * msPerDay + 86399999) = 31"
    unfolding fields_of_day [OF t] y s by (simp add: monthOfDay_def monthStart_def)
  have fc: "YearFromTime (19754 * msPerDay) = 2024" "MonthFromTime (19754 * msPerDay) = 1"
    using fields_of_day(1,2) [OF u, of 19754] by (simp_all add: y s monthOfDay_def monthStart_def)
  have l: "TimeWithinDay (19754 * msPerDay) = 0"
    using Day_of_parts [OF u, of 19754] by simp
  have d: "MakeDay 2024 1 30 = 19783"
    by (simp add: MakeDay_def DayFromYear_def DaysInYear_def monthStart_def)
  have cut: "cutoffDate (\<lambda>_ _. 0) 1706745599999 1706745600000 ''1D'' = Some (Some 1709251200000)"
    unfolding n c
    by (simp add: cutoffDate_def setDate_def getDate_def LocalTime_def UTC_def dn fc l d MakeDate_def)
       (simp add: msPerDay_def TimeClip_def)
  have p: "Date_parse (\<lambda>_. None) ''2024-02-01'' = Some 1706745600000"
    by (simp add: parse_defs)
  show ?thesis
    by (simp add: cut filterDataByTimeRange_def p date_ge_def)
qed

lemma filterDataByTimeRange_is_filter:
  "\<exists>P. filterDataByTimeRange tza fallback now created timeRange (Some bars) = filter P bars"
proof (cases "cutoffDate tza now created timeRange")
  case None
  then have "filterDataByTimeRange tza fallback now created timeRange (Some bars) = filter (\<lambda>_. True) bars"
    by (simp add: filterDataByTimeRange_def)
  then show ?thesis by blast
next
  case (Some c)
  then show ?thesis by (auto simp: filterDataByTimeRange_def)
qed

text \<open>The clock of the examples below: noon UTC on 15 June 2024, in the zone of UTC.\<close>

lemmas calendar_defs = msPerDay_def Day_def TimeWithinDay_def DayFromYear_def DaysInYear_def
  YearFromDay_def YearFromTime_def InLeapYear_def DayWithinYear_def monthStart_def monthOfDay_def
  MonthFromTime_def DateFromTime_def MakeDay_def MakeDate_def TimeClip_def LocalTime_def UTC_def

lemmas date_defs = getDate_def getMonth_def getFullYear_def setDate_def setMonth_def
  setFullYear_def is_digit_def decimal_value_def daysInMonth_def isoDateOnly_def Date_parse_def
  date_ge_def

lemma cutoff_1M_noon:
  "cutoffDate (\<lambda>_ _. 0) 1718452800000 1718452800000 ''1M'' = Some (Some 1715774400000)"
  using june_15_cutoff(1) [of 43200000 0] by (simp add: msPerDay_def TimeClip_def)

lemma parse_examples:
  "Date_parse (\<lambda>_. None) ''2024-01-02'' = Some 1704153600000"
  "Date_parse (\<lambda>_. None) ''2024-06-03'' = Some 1717372800000"
  "Date_parse (\<lambda>_. None) ''2024-06-10'' = Some 1717977600000"
  by (simp_all add: calendar_defs date_defs)

text \<open>
  Claim C10. For every bar list and every time range the output of the range filter is a
  subsequence of its input: the bars kept are bars of the input, unchanged and in their
  order, so an input in strictly ascending order of dates (or in any order \<open>before\<close>) gives
  an output in that order; for the range \<open>ALL\<close> the output is the input.
\<close>

theorem filterDataByTimeRange_subsequence:
  "subseq (filterDataByTimeRange tza fallback now created timeRange (Some bars)) bars
   \<and> (sorted_wrt before bars \<longrightarrow>
        sorted_wrt before (filterDataByTimeRange tza fallback now created timeRange (Some bars)))
   \<and> filterDataByTimeRange tza fallback now created ''ALL'' (Some bars) = bars"
proof -
  obtain P where P: "filterDataByTimeRange tza fallback now created timeRange (Some bars) = filter P bars"
    using filterDataByTimeRange_is_filter by blast
  have "subseq (filter P bars) bars" by simp
  moreover have "sorted_wrt before bars \<longrightarrow> sorted_wrt before (filter P bars)"
    by (simp add: sorted_wrt_filter)
  moreover have "filterDataByTimeRange tza fallback now created ''ALL'' (Some bars) = bars"
    by (simp add: filterDataByTimeRange_def cutoffDate_def)
  ultimately show ?thesis by (simp add: P)
qed


theorem filterDataByTimeRange_subsequence_witness:
  "(let bars = [\<lparr>date = ''2024-01-02'', open' = 50, high = 50, low = 50, close = 50, volume = 1\<rparr>,
                \<lparr>date = ''2024-06-03'', open' = 100, high = 100, low = 100, close = 100, volume = 1\<rparr>,
                \<lparr>date = ''2024-06-10'', open' = 110, high = 110, low = 110, close = 110, volume = 1\<rparr>];
        before = (\<lambda>a b. case (Date_parse (\<lambda>_. None) (date a), Date_parse (\<lambda>_. None) (date b)) of
                           (Some p, Some q) \<Rightarrow> p < q | _ \<Rightarrow> False);
        kept = filterDataByTimeRange (\<lambda>_ _. 0) (\<lambda>_. None) 1718452800000 1718452800000 ''1M'' (Some bars)
    in sorted_wrt before bars \<and> subseq kept bars \<and> sorted_wrt before kept)"
  using filterDataByTimeRange_subsequence
    [where before = "\<lambda>a b. case (Date_parse (\<lambda>_. None) (date a), Date_parse (\<lambda>_. None) (date b)) of
                           (Some p, Some q) \<Rightarrow> p < q | _ \<Rightarrow> False"
       and tza = "\<lambda>_ _. 0" and fallback = "\<lambda>_. None" and now = 1718452800000
       and created = 1718452800000 and timeRange = "''1M''"
       and bars = "[\<lparr>date = ''2024-01-02'', open' = 50, high = 50, low = 50, close = 50, volume = 1\<rparr>,
                \<lparr>date = ''2024-06-03'', open' = 100, high = 100, low = 100, close = 100, volume = 1\<rparr>,
                \<lparr>date = ''2024-06-10'', open' = 110, high = 110, low = 110, close = 110, volume = 1\<rparr>]"]
  by (simp add: Let_def parse_examples)


section \<open>The percent change\<close>

text \<open>What \<open>calculateChange\<close> computes is the percent change of the series as fetched.\<close>

lemma change_of_fetched_series:
  "change (Some bars) =
     (if length bars < 2 then Finite 0
      else if close (hd bars) = 0
      then (if close (last bars) > close (hd bars) then PosInfinity
            else if close (last bars) < close (hd bars) then NegInfinity else NaN)
      else Finite (percentChange bars))"
  by (cases bars) (auto simp: change_def calculateChange_def percentChange_def Let_def last_conv_nth hd_conv_nth)


text \<open>
  Claim C1. The percent change is \<open>(last.close - first.close) / first.close * 100\<close> over
  the filtered series, 0 when that series has fewer than 2 bars, and 10 for closes 100 and
  110. The code computes it over the series as fetched instead: on 15 June 2024 with range
  1M, a fetched series with closes 50 (2 January), 100 (3 June) and 110 (10 June) is filtered
  to the closes 100 and 110, whose percent change is 10, and the change shown is 120.
\<close>

theorem change_ignores_range_filter:
  "(let data = Some [\<lparr>date = ''2024-01-02'', open' = 50, high = 50, low = 50, close = 50, volume = 1\<rparr>,
                     \<lparr>date = ''2024-06-03'', open' = 100, high = 100, low = 100, close = 100, volume = 1\<rparr>,
                     \<lparr>date = ''2024-06-10'', open' = 110, high = 110, low = 110, close = 110, volume = 1\<rparr>];
        shown = filteredData (\<lambda>_ _. 0) (\<lambda>_. None) 1718452800000 1718452800000 ''1M'' data
    in map close shown = [100, 110] \<and> percentChange shown = 10 \<and> change data = Finite 120)"
  by (simp add: filteredData_def filterDataByTimeRange_def cutoff_1M_noon parse_examples
      date_ge_def percentChange_def change_def calculateChange_def)


section \<open>The outcomes of the fetcher\<close>

text \<open>\<open>includes_str\<close> is the contiguous-sublist relation of the library.\<close>

lemma includes_str_sublist: "includes_str s t \<longleftrightarrow> sublist t s"
  by (induction s) (auto simp: sublist_Cons_right)












text \<open>When no key contains \<open>Time Series\<close> the code reads \<open>data[undefined]\<close>, which is the
  member named \<open>undefined\<close> if the response has one.\<close>

lemma fetcher_undefined_member_returns_data:
  "fetcher (\<lambda>_. 0) (JObj [(''undefined'', JObj [(''2024-06-14'', JObj [])])])
     = Inr [\<lparr>date = ''2024-06-14'', open' = 0, high = 0, low = 0, close = 0, volume = 0\<rparr>]"
  by (simp add: fetcher_def property_def toBar_def)





section \<open>The vertical scale\<close>

text \<open>\<open>d3.min\<close> and \<open>d3.max\<close> over a series that is not empty are the least and the
  greatest value.\<close>

lemma Min_insert_min: "finite S \<Longrightarrow> Min (insert (min a b) S) = Min (insert a (insert b S))"
  for a :: "'a::linorder"
  by (cases "S = {}") (simp_all add: min.assoc)

lemma Max_insert_max: "finite S \<Longrightarrow> Max (insert (max a b) S) = Max (insert a (insert b S))"
  for a :: "'a::linorder"
  by (cases "S = {}") (simp_all add: max.assoc)

lemma d3_min_fold:
  "fold (\<lambda>d m. case m of None \<Rightarrow> Some (f d) | Some v \<Rightarrow> if v > f d then Some (f d) else Some v)
        xs (Some a) = Some (Min (insert a (f ` set xs)))"
proof (induction xs arbitrary: a)
  case Nil
  show ?case by simp
next
  case (Cons x xs)
  have "(if a > f x then Some (f x) else Some a) = Some (min a (f x))"
    by (auto simp: min_def)
  then have "fold (\<lambda>d m. case m of None \<Rightarrow> Some (f d)
                     | Some v \<Rightarrow> if v > f d then Some (f d) else Some v) (x # xs) (Some a)
               = Some (Min (insert (min a (f x)) (f ` set xs)))"
    using Cons.IH [of "min a (f x)"] by simp
  also have "Min (insert (min a (f x)) (f ` set xs)) = Min (insert a (insert (f x) (f ` set xs)))"
    by (rule Min_insert_min) simp
  finally show ?case
    by (simp only: list.set image_insert)
qed

lemma d3_max_fold:
  "fold (\<lambda>d m. case m of None \<Rightarrow> Some (f d) | Some v \<Rightarrow> if v < f d then Some (f d) else Some v)
        xs (Some a) = Some (Max (insert a (f ` set xs)))"
proof (induction xs arbitrary: a)
  case Nil
  show ?case by simp
next
  case (Cons x xs)
  have "(if a < f x then Some (f x) else Some a) = Some (max a (f x))"
    by (auto simp: max_def)
  then have "fold (\<lambda>d m. case m of None \<Rightarrow> Some (f d)
                     | Some v \<Rightarrow> if v < f d then Some (f d) else Some v) (x # xs) (Some a)
               = Some (Max (insert (max a (f x)) (f ` set xs)))"
    using Cons.IH [of "max a (f x)"] by simp
  also have "Max (insert (max a (f x)) (f ` set xs)) = Max (insert a (insert (f x) (f ` set xs)))"
    by (rule Max_insert_max) simp
  finally show ?case
    by (simp only: list.set image_insert)
qed

lemma d3_min_Min: "xs \<noteq> [] \<Longrightarrow> d3_min f xs = Some (Min (f ` set xs))"
  by (cases xs) (simp_all add: d3_min_def d3_min_fold)

lemma d3_max_Max: "xs \<noteq> [] \<Longrightarrow> d3_max f xs = Some (Max (f ` set xs))"
  by (cases xs) (simp_all add: d3_max_def d3_max_fold)

lemma formattedData_fields:
  "length (formattedData parseDate data) = length data"
  "i < length data \<Longrightarrow> date (formattedData parseDate data ! i) = parseDate (date (data ! i))"
  "i < length data \<Longrightarrow> open' (formattedData parseDate data ! i) = open' (data ! i)"
  "i < length data \<Longrightarrow> high (formattedData parseDate data ! i) = high (data ! i)"
  "i < length data \<Longrightarrow> low (formattedData parseDate data ! i) = low (data ! i)"
  "i < length data \<Longrightarrow> close (formattedData parseDate data ! i) = close (data ! i)"
  by (simp_all add: formattedData_def)

lemma formattedData_image:
  "(\<lambda>d. g (open' d) (high d) (low d) (close d)) ` set (formattedData parseDate data)
     = (\<lambda>d. g (open' d) (high d) (low d) (close d)) ` set data"
  by (auto simp: formattedData_def image_iff)

lemma y_domain_formatted:
  assumes "data \<noteq> []"
  shows "y_domain (formattedData parseDate data) =
           Some (Min ((\<lambda>d. min (low d) (close d)) ` set data) * 0.995,
                 Max ((\<lambda>d. max (high d) (close d)) ` set data) * 1.005)"
proof -
  have ne: "formattedData parseDate data \<noteq> []" using assms by (simp add: formattedData_def)
  have a: "(\<lambda>d. min (low d) (close d)) ` set (formattedData parseDate data)
             = (\<lambda>d. min (low d) (close d)) ` set data"
    using formattedData_image [of "\<lambda>_ _ l c. min l c" parseDate data] by simp
  have b: "(\<lambda>d. max (high d) (close d)) ` set (formattedData parseDate data)
             = (\<lambda>d. max (high d) (close d)) ` set data"
    using formattedData_image [of "\<lambda>_ h _ c. max h c" parseDate data] by simp
  show ?thesis
    by (simp add: y_domain_def d3_min_Min [OF ne] d3_max_Max [OF ne] a b)
qed

lemma StockChart_nonempty:
  assumes "data \<noteq> []"
  shows "StockChart parseDate scaleTime data showCandlestick width height =
     (let fd = formattedData parseDate data;
          x = scaleTime (d3_extent (map date fd)) (0, innerWidth width);
          yd = (Min ((\<lambda>d. min (low d) (close d)) ` set data) * 0.995,
                 Max ((\<lambda>d. max (high d) (close d)) ` set data) * 1.005);
          y = scaleLinear yd (y_range height)
      in Some \<lparr> y_dom = yd, y_rng = y_range height,
                  drawn = (if \<not> showCandlestick
                           then AreaLine (chartColor fd) (map (\<lambda>d. (x (date d), y (close d))) fd)
                           else Candlesticks (map (candlestick x y (candlestickWidth width fd)) fd)) \<rparr>)"
  using assms by (simp add: StockChart_def y_domain_formatted Let_def)

text \<open>
  Claim C5. For every series of bars that is not empty, the domain of the vertical scale
  is the least \<open>min(low, close)\<close> times 0.995 up to the greatest \<open>max(high, close)\<close> times
  1.005, and its range is from the inner height down to 0; so the lower end of the domain
  is at most \<open>min(low, close) * 0.995\<close> of every bar and the upper end at least
  \<open>max(high, close) * 1.005\<close> of every bar.
\<close>

theorem y_scale_domain_and_range:
  assumes "data \<noteq> []"
  shows "\<exists>c. StockChart parseDate scaleTime data showCandlestick width height = Some c
     \<and> y_dom c = (Min ((\<lambda>d. min (low d) (close d)) ` set data) * 0.995,
                  Max ((\<lambda>d. max (high d) (close d)) ` set data) * 1.005)
     \<and> y_rng c = (innerHeight height, 0)
     \<and> (\<forall>d \<in> set data. fst (y_dom c) \<le> min (low d) (close d) * 0.995
                        \<and> max (high d) (close d) * 1.005 \<le> snd (y_dom c))"
proof -
  have "Min ((\<lambda>d. min (low d) (close d)) ` set data) \<le> min (low d) (close d)
        \<and> max (high d) (close d) \<le> Max ((\<lambda>d. max (high d) (close d)) ` set data)"
    if "d \<in> set data" for d
    using that by (intro conjI Min_le Max_ge) auto
  then show ?thesis
    by (simp add: StockChart_nonempty [OF assms] Let_def y_range_def)
qed

theorem y_scale_domain_and_range_witness:
  "[\<lparr>date = ''2024-06-03'', open' = 100, high = 104, low = 98, close = 102, volume = 5\<rparr>,
    \<lparr>date = ''2024-06-04'', open' = 102, high = 110, low = 101, close = 112, volume = 7\<rparr>] \<noteq> []
   \<and> (\<exists>c. StockChart (\<lambda>_. None) (\<lambda>_ _ _. 0)
              [\<lparr>date = ''2024-06-03'', open' = 100, high = 104, low = 98, close = 102, volume = 5\<rparr>,
               \<lparr>date = ''2024-06-04'', open' = 102, high = 110, low = 101, close = 112, volume = 7\<rparr>]
              False 800 400 = Some c
          \<and> y_dom c = (98 * 0.995, 112 * 1.005) \<and> y_rng c = (350, 0))"
  using y_scale_domain_and_range
    [of "[\<lparr>date = ''2024-06-03'', open' = 100, high = 104, low = 98, close = 102, volume = 5\<rparr>,
          \<lparr>date = ''2024-06-04'', open' = 102, high = 110, low = 101, close = 112, volume = 7\<rparr>]"
        "\<lambda>_. None" "\<lambda>_ _ _. 0" False 800 400]
  by (auto simp: innerHeight_def)



section \<open>Candlesticks\<close>

text \<open>A linear scale is affine, so a difference of prices maps to that difference times
  the ratio of the range to the domain.\<close>

lemma scaleLinear_affine:
  assumes "d0 \<noteq> d1"
  shows "scaleLinear (d0, d1) (r0, r1) v = r0 + (v - d0) / (d1 - d0) * (r1 - r0)"
proof (cases "d1 < d0")
  case True
  define t where "t = (v - d1) / (d0 - d1)"
  have e: "(v - d0) / (d1 - d0) = 1 - t"
    using assms by (simp add: t_def field_simps)
  have "scaleLinear (d0, d1) (r0, r1) v = r1 * (1 - t) + r0 * t"
    using True by (simp add: scaleLinear_def interpolateNumber_def normalize_def t_def)
  then show ?thesis unfolding e by (simp add: algebra_simps)
next
  case False
  define t where "t = (v - d0) / (d1 - d0)"
  have "scaleLinear (d0, d1) (r0, r1) v = r0 * (1 - t) + r1 * t"
    using False assms by (simp add: scaleLinear_def interpolateNumber_def normalize_def t_def)
  then show ?thesis by (simp add: algebra_simps t_def [symmetric])
qed

lemma scaleLinear_difference:
  assumes "d0 \<noteq> d1"
  shows "scaleLinear (d0, d1) (r0, r1) a - scaleLinear (d0, d1) (r0, r1) b
           = (a - b) * (r1 - r0) / (d1 - d0)"
proof -
  define ta tb where "ta = (a - d0) / (d1 - d0)" and "tb = (b - d0) / (d1 - d0)"
  have "ta - tb = (a - b) / (d1 - d0)"
    by (simp add: ta_def tb_def diff_divide_distrib [symmetric])
  moreover have "scaleLinear (d0, d1) (r0, r1) a - scaleLinear (d0, d1) (r0, r1) b
                   = (ta - tb) * (r1 - r0)"
    unfolding scaleLinear_affine [OF assms] ta_def [symmetric] tb_def [symmetric]
    by (simp add: algebra_simps)
  ultimately show ?thesis by simp
qed

lemma scaleLinear_antitone:
  assumes "d0 < d1" and "0 \<le> h" and "a \<le> b"
  shows "scaleLinear (d0, d1) (h, 0) b \<le> scaleLinear (d0, d1) (h, 0) a"
proof -
  have "scaleLinear (d0, d1) (h, 0) a - scaleLinear (d0, d1) (h, 0) b = (b - a) * h / (d1 - d0)"
    using scaleLinear_difference [of d0 d1 h 0 a b] assms(1) by (simp add: algebra_simps)
  moreover have "0 \<le> (b - a) * h / (d1 - d0)"
    using assms by simp
  ultimately show ?thesis by simp
qed

lemma candle_bottom:
  assumes "d0 < d1" and "0 \<le> h"
  shows "scaleLinear (d0, d1) (h, 0) (max a b)
           + \<bar>scaleLinear (d0, d1) (h, 0) a - scaleLinear (d0, d1) (h, 0) b\<bar>
         = scaleLinear (d0, d1) (h, 0) (min a b)"
proof (cases "a \<le> b")
  case True
  then show ?thesis
    using scaleLinear_antitone [OF assms True] by (simp add: max_def min_def)
next
  case False
  then have "b \<le> a" by simp
  then show ?thesis
    using scaleLinear_antitone [OF assms \<open>b \<le> a\<close>] False by (simp add: max_def min_def)
qed

lemma candle_extent:
  assumes "d0 \<noteq> d1"
  shows "\<bar>scaleLinear (d0, d1) (h, 0) a - scaleLinear (d0, d1) (h, 0) b\<bar>
           = \<bar>b - a\<bar> * \<bar>h\<bar> / \<bar>d1 - d0\<bar>"
proof -
  have "\<bar>(a - b) * (0 - h) / (d1 - d0)\<bar> = \<bar>b - a\<bar> * \<bar>h\<bar> / \<bar>d1 - d0\<bar>"
    by (simp add: abs_mult abs_minus_commute)
  then show ?thesis
    using scaleLinear_difference [OF assms, of h 0 a b] by simp
qed

text \<open>
  Claim C6. In candlestick mode, for every bar, the wick is the vertical segment from the
  scaled high to the scaled low at the horizontal position of the bar; the body is a
  rectangle whose top is the scaled \<open>max(open, close)\<close>, whose height is
  \<open>|y(open) - y(close)|\<close>, which is \<open>|close - open|\<close> times the inner height over the
  length of the price domain (so that the body ends at the scaled \<open>min(open, close)\<close>),
  and which is centred on the position of the bar with the candle width.
\<close>

theorem candlestick_wick_and_body:
  assumes "data \<noteq> []" and "i < length data"
  shows "\<exists>c cs. StockChart parseDate scaleTime data True width height = Some c
      \<and> drawn c = Candlesticks cs \<and> length cs = length data
      \<and> (let d = data ! i; k = cs ! i;
              x = scaleTime (d3_extent (map (\<lambda>d. parseDate (date d)) data)) (0, innerWidth width);
              y = scaleLinear (y_dom c) (y_rng c)
          in wick_x1 k = x (parseDate (date d)) \<and> wick_x2 k = x (parseDate (date d))
             \<and> wick_y1 k = y (high d) \<and> wick_y2 k = y (low d)
             \<and> body_y k = y (max (open' d) (close d))
             \<and> body_height k = \<bar>y (open' d) - y (close d)\<bar>
             \<and> (fst (y_dom c) \<noteq> snd (y_dom c) \<longrightarrow>
                  body_height k = \<bar>close d - open' d\<bar> * \<bar>innerHeight height\<bar>
                                    / \<bar>snd (y_dom c) - fst (y_dom c)\<bar>)
             \<and> (fst (y_dom c) < snd (y_dom c) \<and> 0 \<le> innerHeight height \<longrightarrow>
                  body_y k + body_height k = y (min (open' d) (close d)))
             \<and> body_width k = candlestickWidth width (formattedData parseDate data)
             \<and> body_x k + body_width k / 2 = x (parseDate (date d)))"
proof -
  define fd where "fd = formattedData parseDate data"
  define d0 where "d0 = Min ((\<lambda>d. min (low d) (close d)) ` set data) * 0.995"
  define d1 where "d1 = Max ((\<lambda>d. max (high d) (close d)) ` set data) * 1.005"
  define h where "h = innerHeight height"
  define x where "x = scaleTime (d3_extent (map (\<lambda>d. parseDate (date d)) data)) (0, innerWidth width)"
  define y where "y = scaleLinear (d0, d1) (h, 0)"
  define cs where "cs = map (candlestick x y (candlestickWidth width fd)) fd"
  define c where "c = \<lparr> y_dom = (d0, d1), y_rng = (h, 0), drawn = Candlesticks cs \<rparr>"
  have m: "map date fd = map (\<lambda>d. parseDate (date d)) data"
    by (simp add: fd_def formattedData_def)
  have sc: "StockChart parseDate scaleTime data True width height = Some c"
    by (simp add: StockChart_nonempty [OF assms(1)] Let_def c_def cs_def y_def x_def h_def
        d0_def d1_def fd_def [symmetric] m y_range_def)
  have k: "cs ! i = candlestick x y (candlestickWidth width fd) (fd ! i)" and len: "length cs = length data"
    using assms(2) by (simp_all add: cs_def fd_def formattedData_fields)
  have f: "date (fd ! i) = parseDate (date (data ! i))" "open' (fd ! i) = open' (data ! i)"
    "high (fd ! i) = high (data ! i)" "low (fd ! i) = low (data ! i)"
    "close (fd ! i) = close (data ! i)"
    using assms(2) by (simp_all add: fd_def formattedData_fields)
  have ext: "d0 \<noteq> d1 \<Longrightarrow> \<bar>y (open' (data ! i)) - y (close (data ! i))\<bar>
               = \<bar>close (data ! i) - open' (data ! i)\<bar> * \<bar>h\<bar> / \<bar>d1 - d0\<bar>"
    unfolding y_def by (rule candle_extent)
  have bot: "d0 < d1 \<and> 0 \<le> h \<Longrightarrow> y (max (open' (data ! i)) (close (data ! i)))
               + \<bar>y (open' (data ! i)) - y (close (data ! i))\<bar>
             = y (min (open' (data ! i)) (close (data ! i)))"
    unfolding y_def by (rule candle_bottom) simp_all
  have "drawn c = Candlesticks cs" "y_dom c = (d0, d1)" "y_rng c = (h, 0)"
    by (simp_all add: c_def)
  then show ?thesis
    using sc len ext bot
    by (intro exI [of _ c] exI [of _ cs])
       (simp add: Let_def k candlestick_def f x_def [symmetric] y_def [symmetric]
         h_def [symmetric] fd_def [symmetric])
qed

theorem candlestick_wick_and_body_witness:
  "(let data = [\<lparr>date = ''2024-06-03'', open' = 100, high = 104, low = 98, close = 102, volume = 5\<rparr>,
           \<lparr>date = ''2024-06-04'', open' = 102, high = 110, low = 101, close = 112, volume = 7\<rparr>]
    in data \<noteq> [] \<and> 1 < length data
       \<and> (\<exists>c cs. StockChart (\<lambda>_. None) (\<lambda>_ _ _. 7) data True 800 400 = Some c
             \<and> drawn c = Candlesticks cs
             \<and> wick_x1 (cs ! 1) = 7 \<and> wick_x2 (cs ! 1) = 7
             \<and> wick_y1 (cs ! 1) = scaleLinear (y_dom c) (y_rng c) 110
             \<and> wick_y2 (cs ! 1) = scaleLinear (y_dom c) (y_rng c) 101
             \<and> body_y (cs ! 1) = scaleLinear (y_dom c) (y_rng c) 112
             \<and> body_height (cs ! 1)
                 = \<bar>scaleLinear (y_dom c) (y_rng c) 102 - scaleLinear (y_dom c) (y_rng c) 112\<bar>
             \<and> body_x (cs ! 1) + body_width (cs ! 1) / 2 = 7))"
  using candlestick_wick_and_body
    [of "[\<lparr>date = ''2024-06-03'', open' = 100, high = 104, low = 98, close = 102, volume = 5\<rparr>,
           \<lparr>date = ''2024-06-04'', open' = 102, high = 110, low = 101, close = 112, volume = 7\<rparr>]" 1 "\<lambda>_. None" "\<lambda>_ _ _. 7" 800 400]
  by (auto simp: Let_def)

text \<open>
  Claim C7. In candlestick mode, for every series that is not empty and every positive
  inner width, the width of every candle is \<open>min((inner width / bar count) * 0.8, 15)\<close>,
  hence at most 15 and at most \<open>0.8 * (inner width / bar count)\<close>; it is positive.
\<close>

theorem candlestickWidth_capped:
  assumes "data \<noteq> []" and "0 < innerWidth width"
  shows "\<exists>c cs. StockChart parseDate scaleTime data True width height = Some c
      \<and> drawn c = Candlesticks cs \<and> length cs = length data
      \<and> (\<forall>k \<in> set cs.
            body_width k = min ((innerWidth width / real (length data)) * 0.8) 15
            \<and> body_width k \<le> 15
            \<and> body_width k \<le> 0.8 * (innerWidth width / real (length data))
            \<and> 0 < body_width k)"
proof -
  have "0 < innerWidth width / real (length data)"
    using assms by simp
  then show ?thesis
    by (auto simp: StockChart_nonempty [OF assms(1)] Let_def candlestick_def candlestickWidth_def
        formattedData_fields)
qed

theorem candlestickWidth_capped_witness:
  "(let data = [\<lparr>date = ''2024-06-03'', open' = 100, high = 104, low = 98, close = 102, volume = 5\<rparr>,
           \<lparr>date = ''2024-06-04'', open' = 102, high = 110, low = 101, close = 112, volume = 7\<rparr>]
    in data \<noteq> [] \<and> 0 < innerWidth 800
       \<and> (\<exists>c cs. StockChart (\<lambda>_. None) (\<lambda>_ _ _. 7) data True 800 400 = Some c
             \<and> drawn c = Candlesticks cs \<and> length cs = 2
             \<and> (\<forall>k \<in> set cs. body_width k = 15)))"
  using candlestickWidth_capped
    [of "[\<lparr>date = ''2024-06-03'', open' = 100, high = 104, low = 98, close = 102, volume = 5\<rparr>,
           \<lparr>date = ''2024-06-04'', open' = 102, high = 110, low = 101, close = 112, volume = 7\<rparr>]" 800 "\<lambda>_. None" "\<lambda>_ _ _. 7" 400]
  by (auto simp: Let_def innerWidth_def)



section \<open>Colours\<close>

lemma colors_differ: "upColor \<noteq> downColor"
  by (simp add: upColor_def downColor_def)

lemma priceChange_formatted:
  "data \<noteq> [] \<Longrightarrow> priceChange (formattedData parseDate data) = close (last data) - close (hd data)"
  by (simp add: priceChange_def formattedData_fields last_conv_nth hd_conv_nth)

text \<open>
  Claim C8. The colour of the chart is the up colour exactly when the close of the last
  bar minus the close of the first is at least 0, and the down colour otherwise; it is the
  colour of the line in area mode. In candlestick mode the wick and the body of a candle
  share one colour, the up colour when the close of that bar is at least its open and the
  down colour otherwise, whatever the other bars are.
\<close>

theorem chart_and_candle_colors:
  assumes "data \<noteq> []"
  shows "(chartColor (formattedData parseDate data) = upColor
            \<longleftrightarrow> close (last data) - close (hd data) \<ge> 0)
     \<and> (chartColor (formattedData parseDate data) = downColor
            \<longleftrightarrow> \<not> close (last data) - close (hd data) \<ge> 0)
     \<and> (\<exists>c pts. StockChart parseDate scaleTime data False width height = Some c
            \<and> drawn c = AreaLine (chartColor (formattedData parseDate data)) pts)
     \<and> (\<exists>c cs. StockChart parseDate scaleTime data True width height = Some c
            \<and> drawn c = Candlesticks cs \<and> length cs = length data
            \<and> (\<forall>i < length data.
                  wick_stroke (cs ! i) = (if close (data ! i) \<ge> open' (data ! i) then upColor else downColor)
                  \<and> body_fill (cs ! i) = wick_stroke (cs ! i)))"
proof -
  have "chartColor (formattedData parseDate data) =
          (if close (last data) - close (hd data) \<ge> 0 then upColor else downColor)"
    by (simp add: chartColor_def priceChange_formatted [OF assms])
  then show ?thesis
    using colors_differ
    by (simp add: StockChart_nonempty [OF assms] Let_def candlestick_def isUp_def formattedData_fields)
qed


theorem chart_and_candle_colors_witness:
  "(let data = [\<lparr>date = ''2024-06-03'', open' = 100, high = 104, low = 98, close = 99, volume = 5\<rparr>,
           \<lparr>date = ''2024-06-04'', open' = 102, high = 110, low = 101, close = 112, volume = 7\<rparr>]
    in data \<noteq> []
       \<and> chartColor (formattedData (\<lambda>_. None) data) = upColor
       \<and> (\<exists>c cs. StockChart (\<lambda>_. None) (\<lambda>_ _ _. 7) data True 800 400 = Some c
             \<and> drawn c = Candlesticks cs
             \<and> wick_stroke (cs ! 0) = downColor \<and> body_fill (cs ! 0) = downColor
             \<and> wick_stroke (cs ! 1) = upColor \<and> body_fill (cs ! 1) = upColor))"
  using chart_and_candle_colors
    [of "[\<lparr>date = ''2024-06-03'', open' = 100, high = 104, low = 98, close = 99, volume = 5\<rparr>,
           \<lparr>date = ''2024-06-04'', open' = 102, high = 110, low = 101, close = 112, volume = 7\<rparr>]" "\<lambda>_. None" "\<lambda>_ _ _. 7" 800 400]
  by (auto simp: Let_def)


section \<open>The bar under the pointer\<close>

text \<open>On an array of fewer than \<open>2^31\<close> bars with ascending dates the search returns, and
  what it returns parts the indices from \<open>lo\<close> to \<open>hi\<close> into the dates before \<open>t\<close> and the
  dates at or after it.\<close>

lemma ascending_less: "ascending (Some p) (Some q) = Some (- 1) \<longleftrightarrow> p < q"
  by (simp add: ascending_def)

lemma ascending_self: "ascending (Some p) (Some p) = Some 0"
  by (simp add: ascending_def)

lemma date_nth:
  "map date a = map Some ts \<Longrightarrow> j < length a \<Longrightarrow> date (a ! j) = Some (ts ! j)"
  by (metis length_map nth_map)

lemma bisect_loop_correct:
  assumes "map date a = map Some ts" and "sorted ts"
    and "lo < hi" and "hi \<le> length a" and "length a < 2147483648"
  shows "\<exists>r. bisect_loop a (Some t) lo hi = Some (Inr r) \<and> lo \<le> r \<and> r \<le> hi
           \<and> (\<forall>j. lo \<le> j \<and> j < r \<longrightarrow> ts ! j < t)
           \<and> (\<forall>j. r \<le> j \<and> j < hi \<longrightarrow> t \<le> ts ! j)"
  using assms(3,4)
proof (induction "hi - lo" arbitrary: lo hi rule: less_induct)
  case less
  define mid where "mid = (lo + hi) div 2"
  have len: "length ts = length a"
    using assms(1) by (metis length_map)
  have wrap: "((lo + hi) mod 4294967296) div 2 = mid"
    using less.prems assms(5) by (simp add: mid_def)
  have mid: "lo \<le> mid" "mid < hi" "mid < length a"
    using less.prems by (simp_all add: mid_def)
  have dm: "date (a ! mid) = Some (ts ! mid)"
    using date_nth [OF assms(1) mid(3)] .
  have mono: "ts ! i \<le> ts ! j" if "i \<le> j" "j < length a" for i j
    using assms(2) that len by (simp add: sorted_iff_nth_mono)
  show ?case
  proof (cases "ts ! mid < t")
    case True
    have below: "ts ! j < t" if "j \<le> mid" for j
      using mono [of j mid] that mid(3) True by simp
    show ?thesis
    proof (cases "mid + 1 < hi")
      case up: True
      have step: "bisect_loop a (Some t) lo hi = bisect_loop a (Some t) (mid + 1) hi"
        using up by (subst bisect_loop.simps) (simp add: wrap Let_def mid dm ascending_less True)
      obtain r where r: "bisect_loop a (Some t) (mid + 1) hi = Some (Inr r)" "mid + 1 \<le> r" "r \<le> hi"
        "\<forall>j. mid + 1 \<le> j \<and> j < r \<longrightarrow> ts ! j < t" "\<forall>j. r \<le> j \<and> j < hi \<longrightarrow> t \<le> ts ! j"
      proof -
        have "hi - (mid + 1) < hi - lo" using mid by arith
        from less.hyps [OF this up less.prems(2)] show ?thesis
          using that by blast
      qed
      have "\<forall>j. lo \<le> j \<and> j < r \<longrightarrow> ts ! j < t"
      proof (intro allI impI)
        fix j assume "lo \<le> j \<and> j < r"
        then show "ts ! j < t"
          using below [of j] r(4) by (cases "j \<le> mid") auto
      qed
      then show ?thesis
        using r mid by (auto simp: step)
    next
      case stop: False
      have "bisect_loop a (Some t) lo hi = Some (Inr (mid + 1))"
        using stop by (subst bisect_loop.simps) (simp add: wrap Let_def mid dm ascending_less True)
      moreover have "mid + 1 = hi" using stop mid by simp
      ultimately show ?thesis
        using below mid by auto
    qed
  next
    case False
    have above: "t \<le> ts ! j" if "mid \<le> j" "j < hi" for j
      using mono [of mid j] that less.prems False by simp
    show ?thesis
    proof (cases "lo < mid")
      case down: True
      have step: "bisect_loop a (Some t) lo hi = bisect_loop a (Some t) lo mid"
        using down by (subst bisect_loop.simps) (simp add: wrap Let_def mid dm ascending_less False)
      obtain r where r: "bisect_loop a (Some t) lo mid = Some (Inr r)" "lo \<le> r" "r \<le> mid"
        "\<forall>j. lo \<le> j \<and> j < r \<longrightarrow> ts ! j < t" "\<forall>j. r \<le> j \<and> j < mid \<longrightarrow> t \<le> ts ! j"
      proof -
        have "mid - lo < hi - lo" "mid \<le> length a" using mid down by arith+
        from less.hyps [OF this(1) down this(2)] show ?thesis
          using that by blast
      qed
      have "\<forall>j. r \<le> j \<and> j < hi \<longrightarrow> t \<le> ts ! j"
      proof (intro allI impI)
        fix j assume "r \<le> j \<and> j < hi"
        then show "t \<le> ts ! j"
          using above [of j] r(5) by (cases "mid \<le> j") auto
      qed
      then show ?thesis
        using r mid by (auto simp: step)
    next
      case stop: False
      have "bisect_loop a (Some t) lo hi = Some (Inr lo)"
        using stop by (subst bisect_loop.simps) (simp add: wrap Let_def mid dm ascending_less False)
      moreover have "mid = lo" using stop mid by simp
      ultimately show ?thesis
        using above less.prems by auto
    qed
  qed
qed

lemma bisect_left_correct:
  assumes "map date a = map Some ts" and "sorted ts"
    and "a \<noteq> []" and "length a < 2147483648"
  shows "\<exists>r. bisect_left a (Some t) 1 (length a) = Some (Inr r) \<and> 1 \<le> r \<and> r \<le> length a
           \<and> (\<forall>j. 1 \<le> j \<and> j < r \<longrightarrow> ts ! j < t)
           \<and> (\<forall>j. r \<le> j \<and> j < length a \<longrightarrow> t \<le> ts ! j)"
proof (cases "1 < length a")
  case True
  then show ?thesis
    using bisect_loop_correct [OF assms(1,2) True _ assms(4), of t]
    by (simp add: bisect_left_def ascending_self)
next
  case False
  then have "length a = 1" using assms(3) by (cases a) auto
  then show ?thesis
    by (simp add: bisect_left_def)
qed

text \<open>
  Claim C3. For every series of bars that is not empty, with ascending dates, the lookup
  of the tooltip (bisect-left from the lower bound 1, then the index before) returns a bar
  of the series: for a date strictly between two bars the earlier of the two, never the
  later; for a date before the first bar the first bar; and, from the first bar on, a bar
  whose date is at or before the date under the pointer.
\<close>

theorem tooltip_resolves_to_earlier_bar:
  assumes "fd \<noteq> []" and "length fd < 2147483648"
    and "map date fd = map Some ts" and "sorted ts"
  shows "\<exists>i < length fd. mousemove fd (Some t) = Some (Inr (fd ! i))
           \<and> (\<forall>k. Suc k < length fd \<and> ts ! k < t \<and> t < ts ! Suc k \<longrightarrow> i = k)
           \<and> (t < ts ! 0 \<longrightarrow> i = 0)
           \<and> (ts ! 0 \<le> t \<longrightarrow> ts ! i \<le> t)"
proof -
  obtain r where r: "bisect_left fd (Some t) 1 (length fd) = Some (Inr r)" "1 \<le> r" "r \<le> length fd"
    "\<forall>j. 1 \<le> j \<and> j < r \<longrightarrow> ts ! j < t" "\<forall>j. r \<le> j \<and> j < length fd \<longrightarrow> t \<le> ts ! j"
    using bisect_left_correct [OF assms(3,4,1,2), of t] by auto
  have len: "length ts = length fd"
    using assms(3) by (metis length_map)
  have sel: "mousemove fd (Some t) = Some (Inr (fd ! (r - 1)))"
    using r(1,2,3) by (simp add: mousemove_def)
  have between: "r - 1 = k" if "Suc k < length fd" "ts ! k < t" "t < ts ! Suc k" for k
  proof -
    have "\<not> r \<le> k" using r(5) that by force
    moreover have "\<not> Suc k < r" using r(4) that by force
    ultimately show ?thesis by simp
  qed
  have left: "r - 1 = 0" if "t < ts ! 0"
  proof (rule ccontr)
    assume "r - 1 \<noteq> 0"
    then have "1 < r" by simp
    then have "ts ! 1 < t" using r(4) by simp
    moreover have "ts ! 0 \<le> ts ! 1"
      using assms(4) \<open>1 < r\<close> r(3) len by (simp add: sorted_iff_nth_mono)
    ultimately show False using that by simp
  qed
  have before: "ts ! (r - 1) \<le> t" if "ts ! 0 \<le> t"
  proof (cases "r = 1")
    case True
    then show ?thesis using that by simp
  next
    case False
    then have "1 \<le> r - 1 \<and> r - 1 < r" using r(2) by simp
    then show ?thesis using r(4) by force
  qed
  show ?thesis
    using r(2,3) sel between left before
    by (intro exI [of _ "r - 1"]) auto
qed

theorem tooltip_resolves_to_earlier_bar_witness:
  "(let fd = [\<lparr>date = Some 10, open' = 1, high = 2, low = 1, close = 2, volume = 3\<rparr>,
           \<lparr>date = Some 20, open' = 2, high = 3, low = 2, close = 3, volume = 4\<rparr>,
           \<lparr>date = Some 30, open' = 3, high = 4, low = 3, close = 4, volume = 5\<rparr>]
    in fd \<noteq> [] \<and> length fd < 2147483648 \<and> map date fd = map Some [10, 20, 30]
       \<and> sorted [10, 20, 30 :: int]
       \<and> mousemove fd (Some 25) = Some (Inr (fd ! 1))
       \<and> mousemove fd (Some 5) = Some (Inr (fd ! 0)))"
  using tooltip_resolves_to_earlier_bar
    [of "[\<lparr>date = Some 10, open' = 1, high = 2, low = 1, close = 2, volume = 3\<rparr>,
           \<lparr>date = Some 20, open' = 2, high = 3, low = 2, close = 3, volume = 4\<rparr>,
           \<lparr>date = Some 30, open' = 3, high = 4, low = 3, close = 4, volume = 5\<rparr>]" "[10, 20, 30]" 25]
    tooltip_resolves_to_earlier_bar
    [of "[\<lparr>date = Some 10, open' = 1, high = 2, low = 1, close = 2, volume = 3\<rparr>,
           \<lparr>date = Some 20, open' = 2, high = 3, low = 2, close = 3, volume = 4\<rparr>,
           \<lparr>date = Some 30, open' = 3, high = 4, low = 3, close = 4, volume = 5\<rparr>]" "[10, 20, 30]" 5]
  by (auto simp: Let_def less_Suc_eq numeral_3_eq_3)

end
